theory Spec2Isabelle
  imports Main
begin

section \<open>Tables of the dataframe library\<close>

text \<open>
  \<^verbatim>\<open>query_task\<close> (\<^verbatim>\<open>src/esgpt_task_querying/main.py\<close>) works on polars data frames.
  A frame is a list of named columns; a column carries its dtype even when it has no
  rows, so the dtype is the constructor of the column's data. The dtypes modelled are
  the ones \<^verbatim>\<open>query_task\<close> itself inspects or creates: integers (predicate indicators,
  \<^verbatim>\<open>pl.lit(0)\<close>), strings (unparsed timestamps), datetimes (as a number of time units)
  and structs (the window summaries). \<open>None\<close> is a null cell.
\<close>

datatype data =
    IntCol "int option list"
  | StrCol "string option list"
  | DatetimeCol "int option list"
  | StructCol "(string \<times> data) list"

type_synonym series = "string \<times> data"
type_synonym dataframe = "series list"

text \<open>
  Exceptions are values. \<open>ValueError\<close> is the only exception \<^verbatim>\<open>query_task\<close> raises
  itself; its second component is the chained cause of \<^verbatim>\<open>raise ... from e\<close>. The
  others are raised by the dataframe library or by a collaborator.
\<close>

datatype error =
    ValueError string "error option"
  | ColumnNotFoundError string
  | ShapeError
  | SchemaError
  | ComputeError
  | DuplicateError string
  | StructFieldNotFoundError string
  | AttributeError string
  | OtherError string

fun dlen :: "data \<Rightarrow> nat" where
  "dlen (IntCol xs) = length xs"
| "dlen (StrCol xs) = length xs"
| "dlen (DatetimeCol xs) = length xs"
| "dlen (StructCol []) = 0"
| "dlen (StructCol ((n, d) # fs)) = dlen d"

definition columns :: "dataframe \<Rightarrow> string list" where
  "columns df = map fst df"

text \<open>\<^verbatim>\<open>df.shape[0]\<close>: the length of the columns, 0 for a frame without columns.\<close>

definition height :: "dataframe \<Rightarrow> nat" where
  "height df = (case df of [] \<Rightarrow> 0 | (n, d) # _ \<Rightarrow> dlen d)"

text \<open>\<^verbatim>\<open>df[name]\<close>: the column, or the library's error for an unknown name.\<close>

definition get_column :: "dataframe \<Rightarrow> string \<Rightarrow> error + data" where
  "get_column df n = (case map_of df n of None \<Rightarrow> Inl (ColumnNotFoundError n) | Some d \<Rightarrow> Inr d)"

definition is_datetime :: "data \<Rightarrow> bool" where
  "is_datetime d = (case d of DatetimeCol _ \<Rightarrow> True | _ \<Rightarrow> False)"

subsection \<open>Cells and rows\<close>

datatype cell = Null | IntV int | StrV string | TimeV int | RowV "cell list"

fun cell_at :: "data \<Rightarrow> nat \<Rightarrow> cell" where
  "cell_at (IntCol xs) i =
     (if i < length xs then (case xs ! i of None \<Rightarrow> Null | Some v \<Rightarrow> IntV v) else Null)"
| "cell_at (StrCol xs) i =
     (if i < length xs then (case xs ! i of None \<Rightarrow> Null | Some v \<Rightarrow> StrV v) else Null)"
| "cell_at (DatetimeCol xs) i =
     (if i < length xs then (case xs ! i of None \<Rightarrow> Null | Some v \<Rightarrow> TimeV v) else Null)"
| "cell_at (StructCol fs) i = RowV (map (\<lambda>(n, d). cell_at d i) fs)"

definition cells :: "data \<Rightarrow> cell list" where
  "cells d = map (cell_at d) [0..<dlen d]"

definition row_at :: "dataframe \<Rightarrow> nat \<Rightarrow> cell list" where
  "row_at df i = map (\<lambda>(n, d). cell_at d i) df"

fun is_null :: "cell \<Rightarrow> bool" where
  "is_null Null = True"
| "is_null (RowV cs) = list_all is_null cs"
| "is_null _ = False"

text \<open>\<^verbatim>\<open>series.unique().shape[0]\<close>: the number of distinct cells.\<close>

definition n_unique :: "data \<Rightarrow> nat" where
  "n_unique d = length (remdups (cells d))"

subsection \<open>Boolean masks and filtering\<close>

text \<open>
  \<^verbatim>\<open>series == 1\<close> on an integer column is a Boolean column of the same length, null where
  the cell is null; the library refuses the comparison on the other dtypes modelled.
  \<^verbatim>\<open>~series\<close> negates and keeps nulls.
\<close>

fun eq_one :: "data \<Rightarrow> error + bool option list" where
  "eq_one (IntCol xs) = Inr (map (map_option (\<lambda>v. v = 1)) xs)"
| "eq_one _ = Inl ComputeError"

definition invert :: "bool option list \<Rightarrow> bool option list" where
  "invert m = map (map_option Not) m"

text \<open>Row \<open>i\<close> is kept iff the mask is true (not false, not null) at \<open>i\<close>.\<close>

definition keep :: "bool option list \<Rightarrow> 'a list \<Rightarrow> 'a list" where
  "keep m xs = map fst (filter (\<lambda>(x, b). b = Some True) (zip xs m))"

fun filter_data :: "bool option list \<Rightarrow> data \<Rightarrow> data" where
  "filter_data m (IntCol xs) = IntCol (keep m xs)"
| "filter_data m (StrCol xs) = StrCol (keep m xs)"
| "filter_data m (DatetimeCol xs) = DatetimeCol (keep m xs)"
| "filter_data m (StructCol fs) = StructCol (map (\<lambda>(n, d). (n, filter_data m d)) fs)"

definition filter_rows :: "dataframe \<Rightarrow> bool option list \<Rightarrow> dataframe" where
  "filter_rows df m = map (\<lambda>(n, d). (n, filter_data m d)) df"

text \<open>
  \<^verbatim>\<open>df.filter(mask)\<close> with a Boolean \<^emph>\<open>column\<close> as mask (not an expression). The mask
  is positional: a mask of length one is broadcast, and any other mask must have as
  many entries as the frame has rows, else the library raises its shape error
  (``filter's length differs from that of the series'').
\<close>

definition filter_df :: "dataframe \<Rightarrow> bool option list \<Rightarrow> error + dataframe" where
  "filter_df df m =
     (if df = [] then Inr []
      else if length m = 1 then
        (if hd m = Some True then Inr df else Inr (filter_rows df []))
      else if height df \<noteq> length m then Inl ShapeError
      else Inr (filter_rows df m))"

subsection \<open>Selecting, adding and renaming columns\<close>

fun select_columns :: "dataframe \<Rightarrow> string list \<Rightarrow> error + dataframe" where
  "select_columns df [] = Inr []"
| "select_columns df (n # ns) =
     (case get_column df n of
        Inl e \<Rightarrow> Inl e
      | Inr d \<Rightarrow>
          (case select_columns df ns of
             Inl e \<Rightarrow> Inl e
           | Inr r \<Rightarrow> Inr ((n, d) # r)))"

fun first_duplicate :: "string list \<Rightarrow> string option" where
  "first_duplicate [] = None"
| "first_duplicate (n # ns) = (if n \<in> set ns then Some n else first_duplicate ns)"

text \<open>\<^verbatim>\<open>df.select(*names)\<close>: the named columns in the order given; an unknown name and
  a name given twice are errors.\<close>

definition select :: "dataframe \<Rightarrow> string list \<Rightarrow> error + dataframe" where
  "select df ns =
     (case select_columns df ns of
        Inl e \<Rightarrow> Inl e
      | Inr r \<Rightarrow>
          (case first_duplicate ns of
             Some n \<Rightarrow> Inl (DuplicateError n)
           | None \<Rightarrow> Inr r))"

text \<open>\<^verbatim>\<open>df.with_columns(expr.alias(name))\<close>: a column of that name is replaced in
  place, a new name is appended.\<close>

fun with_column :: "dataframe \<Rightarrow> series \<Rightarrow> dataframe" where
  "with_column [] s = [s]"
| "with_column ((n, d) # df) s =
     (if n = fst s then s # df else (n, d) # with_column df s)"

definition with_columns :: "dataframe \<Rightarrow> series list \<Rightarrow> dataframe" where
  "with_columns df ss = foldl with_column df ss"

text \<open>\<^verbatim>\<open>pl.lit(0)\<close> in a frame of the given height.\<close>

definition lit0 :: "nat \<Rightarrow> data" where
  "lit0 h = IntCol (replicate h (Some 0))"

definition rename :: "dataframe \<Rightarrow> string \<Rightarrow> string \<Rightarrow> error + dataframe" where
  "rename df old new =
     (if old \<notin> set (columns df) then Inl (ColumnNotFoundError old)
      else
        (let r = map (\<lambda>(n, d). (if n = old then new else n, d)) df
         in if distinct (columns r) then Inr r else Inl (DuplicateError new)))"

definition drop_column :: "dataframe \<Rightarrow> string \<Rightarrow> error + dataframe" where
  "drop_column df n =
     (if n \<notin> set (columns df) then Inl (ColumnNotFoundError n)
      else Inr (filter (\<lambda>(n', d). n' \<noteq> n) df))"

text \<open>\<^verbatim>\<open>pl.col(c).struct.field(f)\<close>.\<close>

fun struct_field :: "data \<Rightarrow> string \<Rightarrow> error + data" where
  "struct_field (StructCol fs) f =
     (case map_of fs f of None \<Rightarrow> Inl (StructFieldNotFoundError f) | Some d \<Rightarrow> Inr d)"
| "struct_field _ f = Inl SchemaError"

text \<open>
  \<^verbatim>\<open>pl.col(c).str.strptime(pl.Datetime, format=fmt).cast(pl.Datetime)\<close>: only a string
  column can be parsed; nulls stay null and one cell that does not match the format
  fails the whole call. The parser of one string is the library's and is a parameter.
\<close>

fun parse_cell :: "(string \<Rightarrow> int option) \<Rightarrow> string option \<Rightarrow> int option option" where
  "parse_cell p None = Some None"
| "parse_cell p (Some s) = (case p s of None \<Rightarrow> None | Some t \<Rightarrow> Some (Some t))"

fun str_strptime :: "(string \<Rightarrow> int option) \<Rightarrow> data \<Rightarrow> error + data" where
  "str_strptime p (StrCol xs) =
     (case those (map (parse_cell p) xs) of
        None \<Rightarrow> Inl ComputeError
      | Some ts \<Rightarrow> Inr (DatetimeCol ts))"
| "str_strptime p _ = Inl SchemaError"

text \<open>\<^verbatim>\<open>df.filter(~pl.all_horizontal(pl.all().is_null()))\<close>: the mask is computed from
  the frame itself, so its length always fits.\<close>

definition drop_null_rows :: "dataframe \<Rightarrow> dataframe" where
  "drop_null_rows df =
     filter_rows df (map (\<lambda>i. Some (\<not> list_all is_null (row_at df i))) [0..<height df])"

section \<open>Configuration, window tree and collaborators\<close>

text \<open>
  The configuration object is built by \<^verbatim>\<open>load_config\<close>, which is not part of
  \<^verbatim>\<open>main.py\<close>; \<^verbatim>\<open>query_task\<close> reads from it only what follows. \<^verbatim>\<open>cfg.windows\<close> is a
  mapping from window names to window entries, iterated in configuration order, and the
  trigger is its entry \<^verbatim>\<open>trigger\<close>. In a window entry \<open>start\<close> is a predicate name,
  \<open>includes'\<close> is the list of include conditions (empty when absent: the source only
  tests its truth value), and \<open>label\<close> is \<open>None\<close> when the key is absent.
\<close>

record incl =
  predicate :: string

record window =
  start :: "string option"
  includes' :: "incl list"
  label :: "string option"

record config =
  windows :: "(string \<times> window) list"

text \<open>The window tree of \<^verbatim>\<open>bigtree\<close>: a node has a name and children.\<close>

datatype tree = Node (name: string) (children: "tree list")

fun preorder_iter :: "tree \<Rightarrow> tree list" where
  "preorder_iter (Node n cs) = Node n cs # concat (map preorder_iter cs)"

text \<open>The event source: a dataset path or an in-memory frame.\<close>

datatype source = Path string | Frame dataframe

text \<open>
  The functions \<^verbatim>\<open>query_task\<close> calls and \<^verbatim>\<open>main.py\<close> does not define are parameters:
  the dataset loader (the two frames \<^verbatim>\<open>events_df\<close> and \<^verbatim>\<open>dynamic_measurements_df\<close>),
  the configuration loader, the predicate generator, the tree builder and the recursive
  query. Each returns a value or raises. Three operations of the dataframe library are
  parameters too: the left join and the sort of the dataset branch (the order of equal
  keys is the library's choice), and the parser of one timestamp string for a format.
\<close>

record collaborators =
  Dataset_load :: "string \<Rightarrow> error + (dataframe \<times> dataframe)"
  load_config :: "string \<Rightarrow> error + config"
  generate_predicate_columns :: "config \<Rightarrow> dataframe \<Rightarrow> bool \<Rightarrow> error + dataframe"
  build_tree_from_config :: "config \<Rightarrow> error + tree"
  query_subtree :: "tree \<Rightarrow> dataframe \<Rightarrow> dataframe \<Rightarrow> int \<Rightarrow> bool \<Rightarrow> error + dataframe"
  join_left :: "dataframe \<Rightarrow> dataframe \<Rightarrow> string \<Rightarrow> error + dataframe"
  sort_by :: "dataframe \<Rightarrow> string list \<Rightarrow> error + dataframe"
  strptime :: "string \<Rightarrow> string \<Rightarrow> int option"

section \<open>The entry point \<^verbatim>\<open>query_task\<close>\<close>

subsection \<open>Loading and checking the event table (lines 29 to 59)\<close>

text \<open>
  The \<^verbatim>\<open>match\<close> on the event source. A dataset path is loaded, both frames lose their
  all-null rows, are joined on \<^verbatim>\<open>event_id\<close>, lose that column and are sorted. A frame is
  taken as it is.
\<close>

fun load_data :: "collaborators \<Rightarrow> source \<Rightarrow> error + dataframe" where
  "load_data C (Path p) =
     (case Dataset_load C p of
        Inl e \<Rightarrow> Inl e
      | Inr (events_df, dynamic_measurements_df) \<Rightarrow>
          (case join_left C (drop_null_rows events_df)
                  (drop_null_rows dynamic_measurements_df) ''event_id'' of
             Inl e \<Rightarrow> Inl e
           | Inr joined \<Rightarrow>
               (case drop_column joined ''event_id'' of
                  Inl e \<Rightarrow> Inl e
                | Inr dropped \<Rightarrow>
                    sort_by C dropped [''subject_id'', ''timestamp'', ''event_type''])))"
| "load_data C (Frame df) = Inr df"

text \<open>
  Lines 47 to 52: the dtype of the \<^verbatim>\<open>timestamp\<close> column is read first (the column must
  exist for that), and a column that is not a datetime is parsed with the fixed format.
\<close>

definition timestamp_format :: string where
  "timestamp_format = ''%m/%d/%Y %H:%M''"

definition parse_timestamp :: "collaborators \<Rightarrow> dataframe \<Rightarrow> error + dataframe" where
  "parse_timestamp C ESD_data =
     (case get_column ESD_data ''timestamp'' of
        Inl e \<Rightarrow> Inl e
      | Inr ts \<Rightarrow>
          if \<not> is_datetime ts then
            (case str_strptime (strptime C timestamp_format) ts of
               Inl e \<Rightarrow> Inl e
             | Inr parsed \<Rightarrow> Inr (with_column ESD_data (''timestamp'', parsed)))
          else Inr ESD_data)"

text \<open>Lines 54 to 59: the three input checks, in the order of the source.\<close>

definition check_input :: "dataframe \<Rightarrow> error + dataframe" where
  "check_input ESD_data =
     (if height ESD_data = 0 then Inl (ValueError ''Empty ESD!'' None)
      else if ''timestamp'' \<notin> set (columns ESD_data)
        then Inl (ValueError ''ESD does not have timestamp column!'' None)
      else if ''subject_id'' \<notin> set (columns ESD_data)
        then Inl (ValueError ''ESD does not have subject_id column!'' None)
      else Inr ESD_data)"

subsection \<open>The trigger filter and the initial anchors (lines 82 to 124)\<close>

text \<open>An f-string prints an absent value as \<^verbatim>\<open>None\<close>.\<close>

fun format_opt :: "string option \<Rightarrow> string" where
  "format_opt None = ''None''"
| "format_opt (Some s) = s"

definition predicate_cols :: "dataframe \<Rightarrow> string list" where
  "predicate_cols ESD_data = filter (\<lambda>col. take 3 col = ''is_'') (columns ESD_data)"

definition trigger :: "config \<Rightarrow> error + window" where
  "trigger cfg =
     (case map_of (windows cfg) ''trigger'' of
        None \<Rightarrow> Inl (AttributeError ''trigger'')
      | Some w \<Rightarrow> Inr w)"

text \<open>\<^verbatim>\<open>ESD_data[name] == 1\<close>: a Boolean column computed once, from the whole table.\<close>

definition column_is_one :: "dataframe \<Rightarrow> string \<Rightarrow> error + bool option list" where
  "column_is_one ESD_data n =
     (case get_column ESD_data n of Inl e \<Rightarrow> Inl e | Inr d \<Rightarrow> eq_one d)"

fun collect :: "('a \<Rightarrow> error + 'b) \<Rightarrow> 'a list \<Rightarrow> error + 'b list" where
  "collect f [] = Inr []"
| "collect f (x # xs) =
     (case f x of
        Inl e \<Rightarrow> Inl e
      | Inr y \<Rightarrow> (case collect f xs of Inl e \<Rightarrow> Inl e | Inr ys \<Rightarrow> Inr (y # ys)))"

definition valid_trigger_exprs :: "window \<Rightarrow> dataframe \<Rightarrow> error + bool option list list" where
  "valid_trigger_exprs trig ESD_data =
     (if includes' trig \<noteq> [] then
        collect (\<lambda>x. column_is_one ESD_data (''is_'' @ predicate x)) (includes' trig)
      else
        collect (column_is_one ESD_data) [''is_'' @ format_opt (start trig)])"

text \<open>
  The loop of lines 96 to 116 over the conditions, with their index. In verbose mode
  a condition that drops rows prints the number of subjects and of rows dropped: the
  printed lines are collected as (subjects, rows, index of the condition).
\<close>

type_synonym report = "nat \<times> nat \<times> nat"

fun trigger_loop ::
  "bool \<Rightarrow> nat \<Rightarrow> bool option list list \<Rightarrow> dataframe \<Rightarrow> nat \<Rightarrow> report list
     \<Rightarrow> error + (dataframe \<times> report list)" where
  "trigger_loop verbose i [] anchor shape out = Inr (anchor, out)"
| "trigger_loop verbose i (condition # rest) anchor shape out =
     (case filter_df anchor (invert condition) of
        Inl e \<Rightarrow> Inl e
      | Inr dropped \<Rightarrow>
          (case filter_df anchor condition of
             Inl e \<Rightarrow> Inl e
           | Inr anchor' \<Rightarrow>
               if height anchor' < shape then
                 (if verbose then
                    (case get_column dropped ''subject_id'' of
                       Inl e \<Rightarrow> Inl e
                     | Inr subjects \<Rightarrow>
                         trigger_loop verbose (Suc i) rest anchor' (height anchor')
                           (out @ [(n_unique subjects, height dropped, i)]))
                  else trigger_loop verbose (Suc i) rest anchor' (height anchor') out)
               else trigger_loop verbose (Suc i) rest anchor' shape out))"

text \<open>Lines 118 to 124: keep the key columns and the predicate columns, the latter
  overwritten with the literal 0.\<close>

definition zero_accumulators :: "dataframe \<Rightarrow> string list \<Rightarrow> error + dataframe" where
  "zero_accumulators anchor pcols =
     (case select anchor (''subject_id'' # ''timestamp'' # pcols) of
        Inl e \<Rightarrow> Inl e
      | Inr sel \<Rightarrow> Inr (with_columns sel (map (\<lambda>c. (c, lit0 (height sel))) pcols)))"

definition initial_anchors ::
  "bool \<Rightarrow> config \<Rightarrow> dataframe \<Rightarrow> error + (dataframe \<times> report list)" where
  "initial_anchors verbose cfg ESD_data =
     (case trigger cfg of
        Inl e \<Rightarrow> Inl e
      | Inr trig \<Rightarrow>
          (case valid_trigger_exprs trig ESD_data of
             Inl e \<Rightarrow> Inl e
           | Inr exprs \<Rightarrow>
               (case trigger_loop verbose 0 exprs ESD_data (height ESD_data) [] of
                  Inl e \<Rightarrow> Inl e
                | Inr (anchor, out) \<Rightarrow>
                    (case zero_accumulators anchor (predicate_cols ESD_data) of
                       Inl e \<Rightarrow> Inl e
                     | Inr anchors \<Rightarrow> Inr (anchors, out)))))"

subsection \<open>Assembling the result (lines 140 to 162)\<close>

definition output_columns :: "tree \<Rightarrow> string list" where
  "output_columns t =
     [''subject_id'', ''timestamp'']
       @ map (\<lambda>c. name c @ ''/timestamp'') (tl (preorder_iter t))
       @ map (\<lambda>c. name c @ ''/window_summary'') (tl (preorder_iter t))"

definition assemble :: "tree \<Rightarrow> dataframe \<Rightarrow> error + dataframe" where
  "assemble t result =
     (case select result (output_columns t) of
        Inl e \<Rightarrow> Inl e
      | Inr sel \<Rightarrow> rename sel ''timestamp'' (name t @ ''/timestamp''))"

text \<open>
  Lines 149 to 154: the first window, in configuration order, whose \<^verbatim>\<open>label\<close> key is
  present with a true (non-empty) value; the loop stops there. \<^verbatim>\<open>cfg.windows\<close> is a
  mapping, so the entry read back at line 157 is the one the loop stopped at.
\<close>

fun label_window :: "(string \<times> window) list \<Rightarrow> (string \<times> window) option" where
  "label_window [] = None"
| "label_window ((w, c) # rest) =
     (case label c of
        None \<Rightarrow> label_window rest
      | Some l \<Rightarrow> if l \<noteq> [] then Some (w, c) else label_window rest)"

text \<open>Lines 156 to 162: \<^verbatim>\<open>if label_window:\<close> tests the truth value of the window's
  name, so only a non-empty name adds the column.\<close>

definition add_label :: "config \<Rightarrow> dataframe \<Rightarrow> error + dataframe" where
  "add_label cfg result =
     (case label_window (windows cfg) of
        None \<Rightarrow> Inr result
      | Some (w, c) \<Rightarrow>
          if w = [] then Inr result
          else
            (case get_column result (w @ ''/window_summary'') of
               Inl e \<Rightarrow> Inl e
             | Inr summary \<Rightarrow>
                 (case struct_field summary (''is_'' @ format_opt (label c)) of
                    Inl e \<Rightarrow> Inl e
                  | Inr d \<Rightarrow> Inr (with_column result (''label'', d)))))"

subsection \<open>The whole function\<close>

text \<open>
  The \<^verbatim>\<open>print\<close> calls and \<^verbatim>\<open>print_tree\<close> of verbose mode have no part in the value
  returned and are left out, except for the report of the trigger loop, whose arguments
  are evaluated and can raise.
\<close>

definition predicate_error_message :: string where
  "predicate_error_message =
     ''Error generating predicate columns from configuration file! Check to make sure the format of the configuration file is valid.''"

text \<open>Lines 54 to 163, on the event table whose timestamps are datetimes.\<close>

definition query_events :: "collaborators \<Rightarrow> string \<Rightarrow> dataframe \<Rightarrow> bool \<Rightarrow> error + dataframe" where
  "query_events C cfg_path parsed verbose =
     (case check_input parsed of
        Inl e \<Rightarrow> Inl e
      | Inr checked \<Rightarrow>
     (case load_config C cfg_path of
        Inl e \<Rightarrow> Inl e
      | Inr cfg \<Rightarrow>
     (case generate_predicate_columns C cfg checked verbose of
        Inl e \<Rightarrow> Inl (ValueError predicate_error_message (Some e))
      | Inr ESD_data \<Rightarrow>
     (case build_tree_from_config C cfg of
        Inl e \<Rightarrow> Inl e
      | Inr t \<Rightarrow>
     (case initial_anchors verbose cfg ESD_data of
        Inl e \<Rightarrow> Inl e
      | Inr (anchors, out) \<Rightarrow>
     (case query_subtree C t anchors ESD_data 0 verbose of
        Inl e \<Rightarrow> Inl e
      | Inr result \<Rightarrow>
     (case assemble t result of
        Inl e \<Rightarrow> Inl e
      | Inr assembled \<Rightarrow> add_label cfg assembled)))))))"

definition query_task :: "collaborators \<Rightarrow> string \<Rightarrow> source \<Rightarrow> bool \<Rightarrow> error + dataframe" where
  "query_task C cfg_path data' verbose =
     (case load_data C data' of
        Inl e \<Rightarrow> Inl e
      | Inr loaded \<Rightarrow>
     (case parse_timestamp C loaded of
        Inl e \<Rightarrow> Inl e
      | Inr parsed \<Rightarrow> query_events C cfg_path parsed verbose))"

section \<open>Notions used in the statements\<close>

text \<open>
  The invariant of a frame of the library: column names are distinct and every column,
  with the fields of its structs, has as many cells as the frame has rows.
\<close>

fun wf_data :: "nat \<Rightarrow> data \<Rightarrow> bool" where
  "wf_data h (IntCol xs) = (length xs = h)"
| "wf_data h (StrCol xs) = (length xs = h)"
| "wf_data h (DatetimeCol xs) = (length xs = h)"
| "wf_data h (StructCol fs) = (fs \<noteq> [] \<and> list_all (\<lambda>(n, d). wf_data h d) fs)"

definition frame_ok :: "dataframe \<Rightarrow> bool" where
  "frame_ok df = (distinct (columns df) \<and> list_all (\<lambda>(n, d). wf_data (height df) d) df)"

text \<open>The number of rows a mask keeps.\<close>

definition count_true :: "bool option list \<Rightarrow> nat" where
  "count_true m = length (filter (\<lambda>b. b = Some True) m)"

text \<open>The table a run returns, if it returns one.\<close>

definition returned :: "error + 'a \<Rightarrow> 'a option" where
  "returned r = (case r of Inl e \<Rightarrow> None | Inr x \<Rightarrow> Some x)"

text \<open>The errors \<^verbatim>\<open>query_task\<close> raises for its input (lines 54 to 59).\<close>

definition input_errors :: "error list" where
  "input_errors =
     [ValueError ''Empty ESD!'' None,
      ValueError ''ESD does not have timestamp column!'' None,
      ValueError ''ESD does not have subject_id column!'' None]"

text \<open>A window entry carries a label: the key is present and its value is true.\<close>

definition has_label :: "window \<Rightarrow> bool" where
  "has_label w = (case label w of None \<Rightarrow> False | Some l \<Rightarrow> l \<noteq> [])"

text \<open>
  The anchors in the words of the claim. The trigger names one predicate (\<^verbatim>\<open>start\<close>) or
  several (\<^verbatim>\<open>includes\<close>); a row of the table qualifies iff every predicate column named
  is 1 on it; the anchors have one row per qualifying row, with that row's
  \<^verbatim>\<open>subject_id\<close> and \<^verbatim>\<open>timestamp\<close> and with 0 in every predicate column.
\<close>

definition cell_of :: "dataframe \<Rightarrow> string \<Rightarrow> nat \<Rightarrow> cell" where
  "cell_of df n i = (case map_of df n of None \<Rightarrow> Null | Some d \<Rightarrow> cell_at d i)"

definition trigger_predicates :: "window \<Rightarrow> string list" where
  "trigger_predicates trig =
     (if includes' trig \<noteq> [] then map predicate (includes' trig)
      else [format_opt (start trig)])"

definition qualifies :: "window \<Rightarrow> dataframe \<Rightarrow> nat \<Rightarrow> bool" where
  "qualifies trig ESD_data i =
     list_all (\<lambda>p. cell_of ESD_data (''is_'' @ p) i = IntV 1) (trigger_predicates trig)"

definition claimed_anchors :: "window \<Rightarrow> dataframe \<Rightarrow> dataframe option" where
  "claimed_anchors trig ESD_data =
     (let m = map (\<lambda>i. Some (qualifies trig ESD_data i)) [0..<height ESD_data] in
      case (get_column ESD_data ''subject_id'', get_column ESD_data ''timestamp'') of
        (Inr sid, Inr ts) \<Rightarrow>
          Some ((''subject_id'', filter_data m sid) # (''timestamp'', filter_data m ts)
                # map (\<lambda>c. (c, lit0 (count_true m))) (predicate_cols ESD_data))
      | _ \<Rightarrow> None)"

section \<open>Concrete instances\<close>

text \<open>
  A small configuration (a trigger on \<^verbatim>\<open>admission\<close> and one window \<^verbatim>\<open>target\<close> labelled
  by \<^verbatim>\<open>death\<close>), its tree, and simple collaborators: the predicate generator returns
  the table it is given (the example tables carry their \<^verbatim>\<open>is_\<close> columns already), and
  the recursive query answers every anchor, for every node below the root, with the
  anchor's own timestamp and, as summary, the number of rows of the whole table on
  which each predicate holds.
\<close>

definition example_cfg :: config where
  "example_cfg =
     \<lparr>windows =
        [(''trigger'', \<lparr>start = Some ''admission'', includes' = [], label = None\<rparr>),
         (''target'', \<lparr>start = Some ''trigger'', includes' = [], label = Some ''death''\<rparr>)]\<rparr>"

definition example_tree :: tree where
  "example_tree = Node ''trigger'' [Node ''target'' []]"

fun total :: "data \<Rightarrow> int" where
  "total (IntCol xs) = sum_list (map (\<lambda>x. case x of None \<Rightarrow> 0 | Some v \<Rightarrow> v) xs)"
| "total _ = 0"

definition example_summary :: "dataframe \<Rightarrow> dataframe \<Rightarrow> data" where
  "example_summary anchors ESD_data =
     StructCol
       (map (\<lambda>(n, d). (n, IntCol (replicate (height anchors) (Some (total d)))))
          (filter (\<lambda>(n, d). take 3 n = ''is_'') ESD_data))"

definition example_query_subtree ::
  "tree \<Rightarrow> dataframe \<Rightarrow> dataframe \<Rightarrow> int \<Rightarrow> bool \<Rightarrow> error + dataframe" where
  "example_query_subtree t anchors ESD_data anchor_offset verbose =
     (case select anchors [''subject_id'', ''timestamp''] of
        Inl e \<Rightarrow> Inl e
      | Inr keys \<Rightarrow>
          (case get_column anchors ''timestamp'' of
             Inl e \<Rightarrow> Inl e
           | Inr ts \<Rightarrow>
               Inr (keys @
                 concat (map (\<lambda>c.
                   [(name c @ ''/timestamp'', ts),
                    (name c @ ''/window_summary'', example_summary anchors ESD_data)])
                   (tl (preorder_iter t))))))"

definition example_strptime :: "string \<Rightarrow> string \<Rightarrow> int option" where
  "example_strptime fmt s =
     (if fmt = ''%m/%d/%Y %H:%M''
      then map_of [(''01/01/2020 00:00'', 0), (''01/01/2020 05:00'', 300)] s
      else None)"

definition example_collaborators :: collaborators where
  "example_collaborators =
     \<lparr>Dataset_load = (\<lambda>p. Inl (OtherError ''no dataset'')),
      load_config = (\<lambda>p. Inr example_cfg),
      generate_predicate_columns = (\<lambda>cfg df verbose. Inr df),
      build_tree_from_config = (\<lambda>cfg. Inr example_tree),
      query_subtree = example_query_subtree,
      join_left = (\<lambda>l r k. Inr l),
      sort_by = (\<lambda>df ks. Inr df),
      strptime = example_strptime\<rparr>"

definition example_events :: dataframe where
  "example_events =
     [(''subject_id'', IntCol [Some 1, Some 1, Some 2]),
      (''timestamp'', DatetimeCol [Some 0, Some 300, Some 0]),
      (''is_admission'', IntCol [Some 1, Some 0, Some 1]),
      (''is_death'', IntCol [Some 0, Some 1, Some 0])]"

definition example_result :: dataframe where
  "example_result =
     [(''subject_id'', IntCol [Some 1, Some 2]),
      (''trigger/timestamp'', DatetimeCol [Some 0, Some 0]),
      (''target/timestamp'', DatetimeCol [Some 0, Some 0]),
      (''target/window_summary'',
       StructCol
        [(''is_admission'', IntCol [Some 2, Some 2]),
         (''is_death'', IntCol [Some 1, Some 1])]),
      (''label'', IntCol [Some 1, Some 1])]"

text \<open>Tables for the input checks and the event source.\<close>

definition example_unsorted :: dataframe where
  "example_unsorted =
     [(''subject_id'', IntCol [Some 2, None, Some 1]),
      (''timestamp'', DatetimeCol [Some 300, None, Some 0]),
      (''is_admission'', IntCol [Some 1, None, Some 1]),
      (''is_death'', IntCol [Some 0, None, Some 0])]"

definition example_empty :: dataframe where
  "example_empty = [(''subject_id'', IntCol []), (''timestamp'', StrCol [])]"

definition example_empty_untyped :: dataframe where
  "example_empty_untyped = [(''subject_id'', IntCol []), (''timestamp'', IntCol [])]"

definition example_empty_no_subject :: dataframe where
  "example_empty_no_subject = [(''timestamp'', DatetimeCol [])]"

definition example_no_subject :: dataframe where
  "example_no_subject =
     [(''timestamp'', StrCol [Some ''01/01/2020 00:00'', Some ''01/01/2020 05:00'']),
      (''is_admission'', IntCol [Some 1, Some 0])]"

text \<open>Collaborators that raise.\<close>

definition failing_config_collaborators :: collaborators where
  "failing_config_collaborators =
     example_collaborators\<lparr>load_config := (\<lambda>p. Inl (OtherError ''cannot read configuration''))\<rparr>"

definition failing_predicate_collaborators :: collaborators where
  "failing_predicate_collaborators =
     example_collaborators
       \<lparr>generate_predicate_columns := (\<lambda>cfg df verbose. Inl (ColumnNotFoundError ''event_type''))\<rparr>"

text \<open>A configuration in which two windows carry a label.\<close>

definition two_label_cfg :: config where
  "two_label_cfg =
     \<lparr>windows =
        [(''trigger'', \<lparr>start = Some ''admission'', includes' = [], label = None\<rparr>),
         (''target'', \<lparr>start = Some ''trigger'', includes' = [], label = Some ''death''\<rparr>),
         (''followup'', \<lparr>start = Some ''target'', includes' = [], label = Some ''admission''\<rparr>)]\<rparr>"

definition two_label_tree :: tree where
  "two_label_tree = Node ''trigger'' [Node ''target'' [Node ''followup'' []]]"

definition two_label_collaborators :: collaborators where
  "two_label_collaborators =
     example_collaborators
       \<lparr>load_config := (\<lambda>p. Inr two_label_cfg),
        build_tree_from_config := (\<lambda>cfg. Inr two_label_tree)\<rparr>"

definition two_label_result :: dataframe where
  "two_label_result =
     [(''subject_id'', IntCol [Some 1, Some 2]),
      (''trigger/timestamp'', DatetimeCol [Some 0, Some 0]),
      (''target/timestamp'', DatetimeCol [Some 0, Some 0]),
      (''followup/timestamp'', DatetimeCol [Some 0, Some 0]),
      (''target/window_summary'',
       StructCol
        [(''is_admission'', IntCol [Some 2, Some 2]),
         (''is_death'', IntCol [Some 1, Some 1])]),
      (''followup/window_summary'',
       StructCol
        [(''is_admission'', IntCol [Some 2, Some 2]),
         (''is_death'', IntCol [Some 1, Some 1])]),
      (''label'', IntCol [Some 1, Some 1])]"

text \<open>A table on which the trigger never holds.\<close>

definition example_no_trigger :: dataframe where
  "example_no_trigger =
     [(''subject_id'', IntCol [Some 1, Some 2]),
      (''timestamp'', DatetimeCol [Some 0, Some 0]),
      (''is_admission'', IntCol [Some 0, Some 0]),
      (''is_death'', IntCol [Some 1, Some 0])]"

definition empty_anchors :: dataframe where
  "empty_anchors =
     [(''subject_id'', IntCol []), (''timestamp'', DatetimeCol []),
      (''is_admission'', IntCol []), (''is_death'', IntCol [])]"

definition empty_result :: dataframe where
  "empty_result =
     [(''subject_id'', IntCol []),
      (''trigger/timestamp'', DatetimeCol []),
      (''target/timestamp'', DatetimeCol []),
      (''target/window_summary'',
       StructCol [(''is_admission'', IntCol []), (''is_death'', IntCol [])]),
      (''label'', IntCol [])]"

text \<open>A trigger with two include conditions.\<close>

definition includes_trigger :: window where
  "includes_trigger =
     \<lparr>start = None,
      includes' = [\<lparr>predicate = ''admission''\<rparr>, \<lparr>predicate = ''emergency''\<rparr>],
      label = None\<rparr>"

definition includes_cfg :: config where
  "includes_cfg =
     \<lparr>windows =
        [(''trigger'', includes_trigger),
         (''target'', \<lparr>start = Some ''trigger'', includes' = [], label = Some ''death''\<rparr>)]\<rparr>"

definition includes_events :: dataframe where
  "includes_events =
     [(''subject_id'', IntCol [Some 1, Some 1, Some 2]),
      (''timestamp'', DatetimeCol [Some 0, Some 300, Some 0]),
      (''is_admission'', IntCol [Some 1, Some 0, Some 1]),
      (''is_emergency'', IntCol [Some 1, Some 0, Some 0]),
      (''is_death'', IntCol [Some 0, Some 1, Some 0])]"

definition includes_collaborators :: collaborators where
  "includes_collaborators = example_collaborators\<lparr>load_config := (\<lambda>p. Inr includes_cfg)\<rparr>"

section \<open>Facts about the table operations\<close>

lemma dlen_wf: "wf_data h d \<Longrightarrow> dlen d = h"
proof (induction d rule: dlen.induct)
  case (5 n d fs)
  then show ?case by simp
qed simp_all

lemma length_keep: "length xs = length m \<Longrightarrow> length (keep m xs) = count_true m"
proof (induction m arbitrary: xs)
  case Nil
  then show ?case by (simp add: keep_def count_true_def)
next
  case (Cons b m)
  then obtain x xs' where "xs = x # xs'" by (cases xs) auto
  with Cons show ?case by (auto simp: keep_def count_true_def)
qed

lemma wf_filter_data: "wf_data (length m) d \<Longrightarrow> wf_data (count_true m) (filter_data m d)"
proof (induction m d rule: filter_data.induct)
  case (4 m fs)
  then show ?case by (auto simp: list_all_iff)
qed (simp_all add: length_keep)

lemma keep_Nil: "keep [] xs = []"
  by (simp add: keep_def)

lemma keep_single_false: "b \<noteq> Some True \<Longrightarrow> keep [b] xs = []"
  by (cases xs) (simp_all add: keep_def)

lemma keep_single_true: "length xs = 1 \<Longrightarrow> keep [Some True] xs = xs"
  by (cases xs) (simp_all add: keep_def)

lemma filter_data_single_false: "b \<noteq> Some True \<Longrightarrow> filter_data [b] d = filter_data [] d"
proof (induction "[b]" d rule: filter_data.induct)
  case (4 fs)
  then show ?case by auto
qed (simp_all add: keep_Nil keep_single_false)

lemma filter_data_single_true: "wf_data 1 d \<Longrightarrow> filter_data [Some True] d = d"
proof (induction "[Some True]" d rule: filter_data.induct)
  case (4 fs)
  have "map (\<lambda>(n, d). (n, filter_data [Some True] d)) fs = map (\<lambda>x. x) fs"
    using 4 by (intro map_cong) (auto simp: list_all_iff)
  then show ?case by simp
qed (simp_all add: keep_single_true)

lemma columns_filter_rows: "columns (filter_rows df m) = columns df"
  by (induction df) (auto simp: columns_def filter_rows_def)

lemma filter_df_ok:
  assumes "frame_ok df" "length m = height df"
  shows "filter_df df m = Inr (filter_rows df m)"
proof (cases "df = []")
  case True
  then show ?thesis by (simp add: filter_df_def filter_rows_def)
next
  case False
  show ?thesis
  proof (cases "length m = 1")
    case one: True
    then obtain b where m: "m = [b]" by (cases m) auto
    show ?thesis
    proof (cases "b = Some True")
      case True
      have "filter_rows df [Some True] = map (\<lambda>x. x) df"
        unfolding filter_rows_def using assms one
        by (intro map_cong) (auto simp: frame_ok_def list_all_iff filter_data_single_true)
      with True m False show ?thesis by (simp add: filter_df_def)
    next
      case nt: False
      have "filter_rows df [b] = filter_rows df []"
        unfolding filter_rows_def using nt by (auto simp: filter_data_single_false)
      with nt m False show ?thesis by (simp add: filter_df_def)
    qed
  next
    case False
    with assms \<open>df \<noteq> []\<close> show ?thesis by (simp add: filter_df_def)
  qed
qed

lemma get_column_filter_rows:
  "get_column df n = Inr d \<Longrightarrow> get_column (filter_rows df m) n = Inr (filter_data m d)"
  by (induction df) (auto simp: get_column_def filter_rows_def split: option.splits if_splits)

lemma get_column_mem: "get_column df n = Inr d \<Longrightarrow> n \<in> set (columns df)"
  by (auto simp: get_column_def columns_def split: option.splits dest: map_of_SomeD intro: rev_image_eqI)

lemma get_column_missing: "n \<notin> set (columns df) \<Longrightarrow> get_column df n = Inl (ColumnNotFoundError n)"
  by (simp add: get_column_def columns_def map_of_eq_None_iff[THEN iffD2])

lemma get_column_present: "n \<in> set (columns df) \<Longrightarrow> \<exists>d. get_column df n = Inr d"
  by (cases "map_of df n") (auto simp: get_column_def columns_def map_of_eq_None_iff)

lemma first_duplicate_None: "first_duplicate ns = None \<longleftrightarrow> distinct ns"
  by (induction ns) auto

lemma select_columns_names: "select_columns df ns = Inr r \<Longrightarrow> columns r = ns"
  by (induction ns arbitrary: r) (auto simp: columns_def split: sum.splits)

lemma select_Inr: "select df ns = Inr r \<Longrightarrow> columns r = ns \<and> distinct ns"
  by (auto simp: select_def first_duplicate_None[symmetric] select_columns_names split: sum.splits option.splits)

lemma select_columns_all:
  "\<forall>n\<in>set ns. \<exists>d. get_column df n = Inr d \<Longrightarrow>
   select_columns df ns = Inr (map (\<lambda>n. (n, projr (get_column df n))) ns)"
  by (induction ns) (auto split: sum.splits)

lemma select_first_missing:
  "get_column df n = Inl e \<Longrightarrow> select df (n # ns) = Inl e"
  by (simp add: select_def)

lemma with_column_replace:
  "c \<notin> fst ` set pre \<Longrightarrow> with_column (pre @ (c, d) # post) (c, d') = pre @ (c, d') # post"
  by (induction pre) auto

lemma with_column_append:
  "c \<notin> fst ` set df \<Longrightarrow> with_column df (c, d) = df @ [(c, d)]"
  by (induction df) auto

lemma with_columns_overwrite:
  "distinct cs \<Longrightarrow> set cs \<inter> fst ` set pre = {} \<Longrightarrow>
   with_columns (pre @ map (\<lambda>c. (c, f c)) cs) (map (\<lambda>c. (c, g c)) cs) = pre @ map (\<lambda>c. (c, g c)) cs"
proof (induction cs arbitrary: pre)
  case Nil
  then show ?case by (simp add: with_columns_def)
next
  case (Cons c cs)
  have "with_column (pre @ (c, f c) # map (\<lambda>c. (c, f c)) cs) (c, g c)
        = pre @ (c, g c) # map (\<lambda>c. (c, f c)) cs"
    using Cons.prems by (intro with_column_replace) auto
  moreover have "with_columns ((pre @ [(c, g c)]) @ map (\<lambda>c. (c, f c)) cs) (map (\<lambda>c. (c, g c)) cs)
        = (pre @ [(c, g c)]) @ map (\<lambda>c. (c, g c)) cs"
    using Cons.prems by (intro Cons.IH) auto
  ultimately show ?case by (simp add: with_columns_def)
qed

lemma map_of_with_column_same: "map_of (with_column df (n, d)) n = Some d"
  by (induction df) auto

lemma map_of_with_column_other: "n' \<noteq> n \<Longrightarrow> map_of (with_column df (n, d)) n' = map_of df n'"
  by (induction df) auto

lemma columns_with_column_present:
  "n \<in> set (columns df) \<Longrightarrow> columns (with_column df (n, d)) = columns df"
  by (induction df) (force simp: columns_def)+

lemma height_with_column_present:
  "get_column df n = Inr d \<Longrightarrow> dlen d' = dlen d \<Longrightarrow> height (with_column df (n, d')) = height df"
  by (cases df) (auto simp: height_def get_column_def split: if_splits)

lemma those_length: "those xs = Some ys \<Longrightarrow> length ys = length xs"
  by (induction xs arbitrary: ys) (auto split: option.splits)

lemma frame_ok_column: "frame_ok df \<Longrightarrow> get_column df n = Inr d \<Longrightarrow> wf_data (height df) d"
  by (auto simp: frame_ok_def get_column_def list_all_iff split: option.splits dest!: map_of_SomeD)

lemma parse_timestamp_datetime:
  "get_column df ''timestamp'' = Inr ts \<Longrightarrow> is_datetime ts \<Longrightarrow> parse_timestamp C df = Inr df"
  by (simp add: parse_timestamp_def)

lemma parse_timestamp_string:
  "get_column df ''timestamp'' = Inr (StrCol xs) \<Longrightarrow>
   those (map (parse_cell (strptime C timestamp_format)) xs) = Some parsed \<Longrightarrow>
   parse_timestamp C df = Inr (with_column df (''timestamp'', DatetimeCol parsed))"
  by (simp add: parse_timestamp_def is_datetime_def)

section \<open>The event source\<close>

text \<open>
  Claim C10. When the event source is an in-memory frame, no null-row filtering and no
  sorting is done: the frame reaches the rest of \<^verbatim>\<open>query_task\<close> exactly as supplied when
  its \<^verbatim>\<open>timestamp\<close> column is a datetime column, and with only that column replaced by
  its parse under the fixed format \<^verbatim>\<open>%m/%d/%Y %H:%M\<close> when it is a string column. The
  witness is a frame that is not sorted and has an all-null row.
\<close>

theorem frame_consumed_as_supplied:
  assumes "get_column df ''timestamp'' = Inr ts"
  shows "(is_datetime ts \<longrightarrow> query_task C p (Frame df) v = query_events C p df v) \<and>
         (\<forall>xs parsed. ts = StrCol xs \<longrightarrow>
            those (map (parse_cell (strptime C timestamp_format)) xs) = Some parsed \<longrightarrow>
            query_task C p (Frame df) v
              = query_events C p (with_column df (''timestamp'', DatetimeCol parsed)) v)"
  using assms
  by (auto simp: query_task_def parse_timestamp_datetime parse_timestamp_string)

theorem frame_consumed_as_supplied_witness:
  "get_column example_unsorted ''timestamp'' = Inr (DatetimeCol [Some 300, None, Some 0]) \<and>
   is_datetime (DatetimeCol [Some 300, None, Some 0]) \<and>
   drop_null_rows example_unsorted \<noteq> example_unsorted \<and>
   query_task example_collaborators ''cfg'' (Frame example_unsorted) True
     = query_events example_collaborators ''cfg'' example_unsorted True"
proof -
  have h: "get_column example_unsorted ''timestamp'' = Inr (DatetimeCol [Some 300, None, Some 0])"
    by (simp add: example_unsorted_def get_column_def)
  have d: "is_datetime (DatetimeCol [Some 300, None, Some 0])"
    by (simp add: is_datetime_def)
  have n: "drop_null_rows example_unsorted \<noteq> example_unsorted"
    by (simp add: example_unsorted_def drop_null_rows_def filter_rows_def height_def row_at_def
          keep_def upt_rec)
  from frame_consumed_as_supplied [OF h, of example_collaborators "''cfg''" True] h d n
  show ?thesis by blast
qed

lemma parse_timestamp_height:
  assumes "parse_timestamp C df = Inr parsed"
  shows "height parsed = height df \<and> columns parsed = columns df"
proof -
  obtain ts where ts: "get_column df ''timestamp'' = Inr ts"
    using assms by (auto simp: parse_timestamp_def split: sum.splits)
  show ?thesis
  proof (cases "is_datetime ts")
    case True
    with ts assms show ?thesis by (simp add: parse_timestamp_def)
  next
    case False
    with ts assms obtain xs ps where x: "ts = StrCol xs"
      "those (map (parse_cell (strptime C timestamp_format)) xs) = Some ps"
      "parsed = with_column df (''timestamp'', DatetimeCol ps)"
      by (cases ts) (auto simp: parse_timestamp_def split: sum.splits option.splits)
    from x(2) have "length ps = length xs" by (auto dest: those_length)
    with ts x show ?thesis
      by (simp add: height_with_column_present columns_with_column_present get_column_mem)
  qed
qed

lemma timestamp_check_never_fires:
  "parse_timestamp C df = Inr parsed \<Longrightarrow>
   check_input parsed \<noteq> Inl (ValueError ''ESD does not have timestamp column!'' None)"
  by (auto simp: check_input_def parse_timestamp_def get_column_mem columns_with_column_present
      split: sum.splits if_splits)

section \<open>Input checks\<close>

text \<open>
  Claim C3, as the code has it. A loaded event table without rows whose \<^verbatim>\<open>timestamp\<close>
  column exists and is a datetime or a string column makes \<^verbatim>\<open>query_task\<close> raise
  \<^verbatim>\<open>ValueError("Empty ESD!")\<close>, before any collaborator is called.
\<close>


theorem empty_table_raises:
  assumes "load_data C src = Inr df" and "frame_ok df" and "height df = 0"
    and "get_column df ''timestamp'' = Inr ts"
    and "is_datetime ts \<or> (\<exists>xs. ts = StrCol xs)"
  shows "query_task C p src v = Inl (ValueError ''Empty ESD!'' None)"
proof -
  have "\<exists>parsed. parse_timestamp C df = Inr parsed"
  proof (cases "is_datetime ts")
    case True
    with assms(4) show ?thesis by (auto simp: parse_timestamp_datetime)
  next
    case False
    with assms(5) obtain xs where xs: "ts = StrCol xs" by blast
    from frame_ok_column [OF assms(2,4)] assms(3) xs have "xs = []" by simp
    with xs assms(4) show ?thesis by (auto simp: parse_timestamp_def is_datetime_def)
  qed
  then obtain parsed where p: "parse_timestamp C df = Inr parsed" ..
  with assms(3) have "height parsed = 0" by (auto dest: parse_timestamp_height)
  with p assms(1) show ?thesis
    by (simp add: query_task_def query_events_def check_input_def)
qed

theorem empty_table_raises_witness:
  "load_data example_collaborators (Frame example_empty) = Inr example_empty \<and>
   frame_ok example_empty \<and> height example_empty = 0 \<and>
   get_column example_empty ''timestamp'' = Inr (StrCol []) \<and>
   query_task example_collaborators ''cfg'' (Frame example_empty) True
     = Inl (ValueError ''Empty ESD!'' None)"
proof -
  have a: "load_data example_collaborators (Frame example_empty) = Inr example_empty" by simp
  have b: "frame_ok example_empty"
    by (simp add: frame_ok_def example_empty_def columns_def height_def)
  have c: "height example_empty = 0" by (simp add: example_empty_def height_def)
  have d: "get_column example_empty ''timestamp'' = Inr (StrCol [])"
    by (simp add: example_empty_def get_column_def)
  have e: "is_datetime (StrCol []) \<or> (\<exists>xs. StrCol [] = StrCol xs)" by simp
  from empty_table_raises [OF a b c d e] a b c d show ?thesis by simp
qed

text \<open>
  The claim as stated (every empty table raises the input error) fails: the dtype of the
  \<^verbatim>\<open>timestamp\<close> column is normalised before the emptiness check, and on an empty table
  whose \<^verbatim>\<open>timestamp\<close> column is neither a datetime nor a string column the parse raises
  the library's error instead.
\<close>

theorem empty_table_other_error:
  "height example_empty_untyped = 0 \<and>
   query_task example_collaborators ''cfg'' (Frame example_empty_untyped) True = Inl SchemaError \<and>
   SchemaError \<notin> set input_errors"
  by (simp add: example_empty_untyped_def height_def query_task_def parse_timestamp_def
      get_column_def is_datetime_def input_errors_def)

text \<open>Whatever the columns, an empty table never yields a result table.\<close>

lemma empty_table_never_returns:
  assumes "load_data C src = Inr df" and "height df = 0"
  shows "\<exists>e. query_task C p src v = Inl e"
proof (cases "parse_timestamp C df")
  case (Inl e)
  with assms show ?thesis by (simp add: query_task_def)
next
  case (Inr parsed)
  with assms(2) have "height parsed = 0" by (auto dest: parse_timestamp_height)
  with Inr assms(1) show ?thesis by (simp add: query_task_def query_events_def check_input_def)
qed

text \<open>
  Claim C4, as the code has it. A loaded event table with at least one row, a usable
  \<^verbatim>\<open>timestamp\<close> column (a datetime column, or a string column all of whose cells
  parse) and no \<^verbatim>\<open>subject_id\<close> column makes \<^verbatim>\<open>query_task\<close> raise the
  \<^verbatim>\<open>ValueError\<close> that names \<^verbatim>\<open>subject_id\<close>.
\<close>

theorem missing_subject_id_raises:
  assumes "load_data C src = Inr df" and "0 < height df"
    and "get_column df ''timestamp'' = Inr ts"
    and "is_datetime ts \<or>
         (\<exists>xs parsed. ts = StrCol xs \<and>
            those (map (parse_cell (strptime C timestamp_format)) xs) = Some parsed)"
    and "''subject_id'' \<notin> set (columns df)"
  shows "query_task C p src v = Inl (ValueError ''ESD does not have subject_id column!'' None)"
proof -
  have "\<exists>parsed. parse_timestamp C df = Inr parsed"
    using assms(3,4) by (auto simp: parse_timestamp_datetime parse_timestamp_string)
  then obtain parsed where p: "parse_timestamp C df = Inr parsed" ..
  then have h: "height parsed = height df" "columns parsed = columns df"
    by (auto dest: parse_timestamp_height)
  have "''timestamp'' \<in> set (columns df)" using assms(3) by (rule get_column_mem)
  with p h assms(1,2,5) show ?thesis
    by (simp add: query_task_def query_events_def check_input_def)
qed

theorem missing_subject_id_raises_witness:
  "load_data example_collaborators (Frame example_no_subject) = Inr example_no_subject \<and>
   0 < height example_no_subject \<and>
   ''subject_id'' \<notin> set (columns example_no_subject) \<and>
   query_task example_collaborators ''cfg'' (Frame example_no_subject) False
     = Inl (ValueError ''ESD does not have subject_id column!'' None)"
proof -
  have a: "load_data example_collaborators (Frame example_no_subject) = Inr example_no_subject"
    by simp
  have b: "0 < height example_no_subject" by (simp add: example_no_subject_def height_def)
  have c: "get_column example_no_subject ''timestamp''
             = Inr (StrCol [Some ''01/01/2020 00:00'', Some ''01/01/2020 05:00''])"
    by (simp add: example_no_subject_def get_column_def)
  have d: "is_datetime (StrCol [Some ''01/01/2020 00:00'', Some ''01/01/2020 05:00'']) \<or>
         (\<exists>xs parsed. StrCol [Some ''01/01/2020 00:00'', Some ''01/01/2020 05:00''] = StrCol xs \<and>
            those (map (parse_cell (strptime example_collaborators timestamp_format)) xs)
              = Some parsed)"
    by (simp add: example_collaborators_def example_strptime_def timestamp_format_def)
  have e: "''subject_id'' \<notin> set (columns example_no_subject)"
    by (simp add: example_no_subject_def columns_def)
  from missing_subject_id_raises [OF a b c d e] a b e show ?thesis by simp
qed

text \<open>
  The claim as stated (every table missing a required column raises an error naming the
  column) fails: the emptiness check comes first, so an empty table without
  \<^verbatim>\<open>subject_id\<close> raises \<^verbatim>\<open>Empty ESD!\<close>, which names no column.
\<close>

theorem missing_subject_id_empty_table:
  "''subject_id'' \<notin> set (columns example_empty_no_subject) \<and>
   query_task example_collaborators ''cfg'' (Frame example_empty_no_subject) True
     = Inl (ValueError ''Empty ESD!'' None) \<and>
   ValueError ''Empty ESD!'' None \<noteq> ValueError ''ESD does not have subject_id column!'' None"
  by (simp add: example_empty_no_subject_def columns_def height_def query_task_def
      parse_timestamp_def get_column_def is_datetime_def query_events_def check_input_def)

text \<open>
  A frame without a \<^verbatim>\<open>timestamp\<close> column fails at line 47, where the column's dtype is
  read, with the library's error; the check of line 56 can never fire (see
  \<open>timestamp_check_never_fires\<close>).
\<close>

lemma missing_timestamp_library_error:
  "''timestamp'' \<notin> set (columns df) \<Longrightarrow>
   query_task C p (Frame df) v = Inl (ColumnNotFoundError ''timestamp'')"
  by (simp add: query_task_def parse_timestamp_def get_column_missing)

section \<open>Errors of the collaborators\<close>

text \<open>
  Claim C8, as the code has it. On an event table that passes the input checks, an error
  raised by \<^verbatim>\<open>generate_predicate_columns\<close> is caught and re-raised as a \<^verbatim>\<open>ValueError\<close>
  whose message names the predicate-generation stage and whose cause is the original
  error; an error raised by \<^verbatim>\<open>load_config\<close> is not caught and leaves \<^verbatim>\<open>query_task\<close>
  unchanged.
\<close>

theorem collaborator_errors:
  assumes "load_data C src = Inr loaded" and "parse_timestamp C loaded = Inr parsed"
    and "check_input parsed = Inr checked"
  shows "(load_config C p = Inl e \<longrightarrow> query_task C p src v = Inl e) \<and>
         (load_config C p = Inr cfg \<longrightarrow> generate_predicate_columns C cfg checked v = Inl e \<longrightarrow>
            query_task C p src v = Inl (ValueError predicate_error_message (Some e)))"
  using assms by (simp add: query_task_def query_events_def)

theorem collaborator_errors_witness:
  "check_input example_events = Inr example_events \<and>
   query_task failing_predicate_collaborators ''cfg'' (Frame example_events) True
     = Inl (ValueError predicate_error_message (Some (ColumnNotFoundError ''event_type'')))"
proof -
  have a: "load_data failing_predicate_collaborators (Frame example_events) = Inr example_events"
    by simp
  have b: "parse_timestamp failing_predicate_collaborators example_events = Inr example_events"
    by (simp add: parse_timestamp_def example_events_def get_column_def is_datetime_def)
  have c: "check_input example_events = Inr example_events"
    by (simp add: check_input_def example_events_def height_def columns_def)
  have d: "load_config failing_predicate_collaborators ''cfg'' = Inr example_cfg"
    by (simp add: failing_predicate_collaborators_def example_collaborators_def)
  have e: "generate_predicate_columns failing_predicate_collaborators example_cfg example_events True
             = Inl (ColumnNotFoundError ''event_type'')"
    by (simp add: failing_predicate_collaborators_def example_collaborators_def)
  from collaborator_errors [OF a b c, of "''cfg''" "ColumnNotFoundError ''event_type''" True example_cfg]
    c d e show ?thesis by simp
qed

text \<open>
  The claim as stated (errors of the configuration loader are wrapped too) fails: the
  call of \<^verbatim>\<open>load_config\<close> at line 63 is outside the \<^verbatim>\<open>try\<close> block.
\<close>

theorem config_error_not_wrapped:
  "query_task failing_config_collaborators ''cfg'' (Frame example_events) True
     = Inl (OtherError ''cannot read configuration'') \<and>
   OtherError ''cannot read configuration''
     \<noteq> ValueError predicate_error_message (Some (OtherError ''cannot read configuration''))"
  by (simp add: query_task_def query_events_def parse_timestamp_def example_events_def
      get_column_def is_datetime_def check_input_def height_def columns_def
      failing_config_collaborators_def example_collaborators_def)

section \<open>Evaluating the concrete instance\<close>

lemmas table_defs =
  get_column_def columns_def height_def is_datetime_def filter_df_def filter_rows_def keep_def
  invert_def select_def with_columns_def lit0_def rename_def n_unique_def cells_def

lemmas query_defs =
  query_task_def query_events_def parse_timestamp_def check_input_def initial_anchors_def
  trigger_def valid_trigger_exprs_def column_is_one_def predicate_cols_def
  zero_accumulators_def assemble_def output_columns_def add_label_def

lemmas example_defs =
  example_collaborators_def example_cfg_def example_tree_def example_query_subtree_def
  example_summary_def example_events_def

lemma example_query:
  "query_task example_collaborators ''cfg'' (Frame example_events) v = Inr example_result"
  by (simp add: query_defs table_defs example_defs example_result_def upt_rec)

lemma two_label_query:
  "query_task two_label_collaborators ''cfg'' (Frame example_events) v = Inr two_label_result"
  by (simp add: query_defs table_defs example_defs two_label_collaborators_def
      two_label_cfg_def two_label_tree_def two_label_result_def upt_rec)

section \<open>The assembled result\<close>

lemma select_Inr_get:
  "select df ns = Inr r \<Longrightarrow> n \<in> set ns \<Longrightarrow> get_column r n = get_column df n"
proof -
  have *: "select_columns df ns = Inr r \<Longrightarrow> n \<in> set ns \<Longrightarrow> distinct ns \<Longrightarrow>
        map_of r n = map_of df n" for ns r
  proof (induction ns arbitrary: r)
    case Nil
    then show ?case by simp
  next
    case (Cons a ns)
    then show ?case
      by (auto simp: get_column_def split: sum.splits option.splits)
  qed
  assume "select df ns = Inr r" "n \<in> set ns"
  then show ?thesis
    using * [of ns r]
    by (auto simp: select_def first_duplicate_None[symmetric] get_column_def
        split: sum.splits option.splits)
qed

lemma output_column_names:
  "n \<in> set (output_columns t) \<Longrightarrow> n \<noteq> ''timestamp'' \<Longrightarrow> n \<noteq> ''label''"
  by (auto simp: output_columns_def dest: arg_cong[where f = length])

lemma timestamp_not_suffixed:
  "x @ ''/timestamp'' \<noteq> ''timestamp''" "x @ ''/window_summary'' \<noteq> ''timestamp''"
  "x @ ''/timestamp'' \<noteq> ''label''" "x @ ''/window_summary'' \<noteq> ''label''"
  by (auto dest: arg_cong[where f = length])

lemma columns_rename:
  "rename df old new = Inr r \<Longrightarrow> columns r = map (\<lambda>n. if n = old then new else n) (columns df)"
  by (auto simp: rename_def columns_def Let_def split: if_splits)

lemma assemble_columns:
  assumes "assemble t result = Inr a"
  shows "columns a =
           [''subject_id'', name t @ ''/timestamp'']
             @ map (\<lambda>c. name c @ ''/timestamp'') (tl (preorder_iter t))
             @ map (\<lambda>c. name c @ ''/window_summary'') (tl (preorder_iter t))"
proof -
  from assms obtain sel where sel: "select result (output_columns t) = Inr sel"
    and r: "rename sel ''timestamp'' (name t @ ''/timestamp'') = Inr a"
    by (auto simp: assemble_def split: sum.splits)
  from sel have "columns sel = output_columns t" by (auto dest: select_Inr)
  with r have "columns a =
      map (\<lambda>n. if n = ''timestamp'' then name t @ ''/timestamp'' else n) (output_columns t)"
    by (auto dest: columns_rename)
  then show ?thesis
    by (simp add: output_columns_def timestamp_not_suffixed o_def)
qed

lemma assemble_no_label:
  "assemble t result = Inr a \<Longrightarrow> ''label'' \<notin> set (columns a)"
  by (auto simp: assemble_columns timestamp_not_suffixed[symmetric])

lemma columns_with_column_new:
  "n \<notin> set (columns df) \<Longrightarrow> columns (with_column df (n, d)) = columns df @ [n]"
  by (simp add: columns_def with_column_append)

lemma add_label_columns:
  assumes "add_label cfg a = Inr result" and "''label'' \<notin> set (columns a)"
  shows "columns result =
           columns a @
             (case label_window (windows cfg) of
                None \<Rightarrow> []
              | Some (w, c) \<Rightarrow> if w = [] then [] else [''label''])"
  using assms
  by (auto simp: add_label_def columns_with_column_new split: option.splits sum.splits if_splits)

lemma query_task_Inr:
  assumes "query_task C p src v = Inr result"
    and "load_config C p = Inr cfg" and "build_tree_from_config C cfg = Inr t"
  shows "\<exists>r a. assemble t r = Inr a \<and> add_label cfg a = Inr result"
  using assms
  by (auto simp: query_task_def query_events_def split: sum.splits prod.splits)

text \<open>
  Claim C5. Whenever \<^verbatim>\<open>query_task\<close> returns a table, its columns are, in this order:
  \<^verbatim>\<open>subject_id\<close>, the root's timestamp renamed to \<^verbatim>\<open><root>/timestamp\<close>, then
  \<^verbatim>\<open><node>/timestamp\<close> for every node other than the root in preorder, then
  \<^verbatim>\<open><node>/window_summary\<close> for the same nodes (and last the \<^verbatim>\<open>label\<close> column when a
  label window was found).
\<close>

theorem result_columns:
  assumes "query_task C p src v = Inr result"
    and "load_config C p = Inr cfg" and "build_tree_from_config C cfg = Inr t"
  shows "columns result =
           [''subject_id'', name t @ ''/timestamp'']
             @ map (\<lambda>c. name c @ ''/timestamp'') (tl (preorder_iter t))
             @ map (\<lambda>c. name c @ ''/window_summary'') (tl (preorder_iter t))
             @ (case label_window (windows cfg) of
                  None \<Rightarrow> []
                | Some (w, c) \<Rightarrow> if w = [] then [] else [''label''])"
proof -
  from query_task_Inr [OF assms] obtain r a
    where a: "assemble t r = Inr a" and l: "add_label cfg a = Inr result" by blast
  from add_label_columns [OF l assemble_no_label [OF a]] assemble_columns [OF a]
  show ?thesis by simp
qed

theorem result_columns_witness:
  "query_task example_collaborators ''cfg'' (Frame example_events) True = Inr example_result \<and>
   columns example_result =
     [''subject_id'', ''trigger/timestamp'', ''target/timestamp'', ''target/window_summary'',
      ''label'']"
proof -
  have a: "load_config example_collaborators ''cfg'' = Inr example_cfg"
    by (simp add: example_collaborators_def)
  have b: "build_tree_from_config example_collaborators example_cfg = Inr example_tree"
    by (simp add: example_collaborators_def)
  from result_columns [OF example_query a b] example_query
  show ?thesis by (simp add: example_tree_def example_cfg_def)
qed

lemma label_window_first:
  "ws = before @ (W, c) # after \<Longrightarrow> \<forall>x\<in>set before. \<not> has_label (snd x) \<Longrightarrow> has_label c \<Longrightarrow>
   label_window ws = Some (W, c)"
  by (induction before arbitrary: ws) (auto simp: has_label_def split: option.splits)

lemma add_label_Inr:
  assumes "add_label cfg a = Inr result" and "label_window (windows cfg) = Some (W, c)"
    and "W \<noteq> []" and "label c = Some l"
  shows "\<exists>summary d. get_column result (W @ ''/window_summary'') = Inr summary \<and>
           struct_field summary (''is_'' @ l) = Inr d \<and> get_column result ''label'' = Inr d"
  using assms
  by (auto simp: add_label_def get_column_def map_of_with_column_same map_of_with_column_other
      timestamp_not_suffixed split: sum.splits option.splits)

text \<open>
  Claim C6. If window \<open>W\<close> is marked as the label source for predicate \<open>l\<close> (it is the
  window the configuration flags, no window before it being flagged), then in every
  result table the \<^verbatim>\<open>label\<close> column is the field \<^verbatim>\<open>is_l\<close> of the struct column
  \<^verbatim>\<open>W/window_summary\<close>, row by row.
\<close>

theorem label_is_summary_field:
  assumes "query_task C p src v = Inr result"
    and "load_config C p = Inr cfg" and "build_tree_from_config C cfg = Inr t"
    and "windows cfg = before @ (W, c) # after"
    and "\<forall>x\<in>set before. \<not> has_label (snd x)"
    and "label c = Some l" and "l \<noteq> []" and "W \<noteq> []"
  shows "\<exists>summary field lab.
           get_column result (W @ ''/window_summary'') = Inr summary \<and>
           struct_field summary (''is_'' @ l) = Inr field \<and>
           get_column result ''label'' = Inr lab \<and>
           lab = field \<and> (\<forall>i. cell_at lab i = cell_at field i)"
proof -
  from query_task_Inr [OF assms(1-3)] obtain r a
    where l: "add_label cfg a = Inr result" by blast
  have "has_label c" using assms(6,7) by (simp add: has_label_def)
  from label_window_first [OF assms(4,5) this]
  have "label_window (windows cfg) = Some (W, c)" .
  from add_label_Inr [OF l this assms(8,6)] show ?thesis by auto
qed

theorem label_is_summary_field_witness:
  "query_task example_collaborators ''cfg'' (Frame example_events) True = Inr example_result \<and>
   (\<exists>summary field lab.
      get_column example_result (''target'' @ ''/window_summary'') = Inr summary \<and>
      struct_field summary (''is_'' @ ''death'') = Inr field \<and>
      get_column example_result ''label'' = Inr lab \<and>
      lab = field \<and> (\<forall>i. cell_at lab i = cell_at field i))"
proof -
  have a: "load_config example_collaborators ''cfg'' = Inr example_cfg"
    by (simp add: example_collaborators_def)
  have b: "build_tree_from_config example_collaborators example_cfg = Inr example_tree"
    by (simp add: example_collaborators_def)
  have c: "windows example_cfg =
      [(''trigger'', \<lparr>start = Some ''admission'', includes' = [], label = None\<rparr>)]
        @ (''target'', \<lparr>start = Some ''trigger'', includes' = [], label = Some ''death''\<rparr>) # []"
    by (simp add: example_cfg_def)
  have d: "\<forall>x\<in>set [(''trigger'', \<lparr>start = Some ''admission'', includes' = [], label = None\<rparr>)].
      \<not> has_label (snd x)"
    by (simp add: has_label_def)
  have e: "label \<lparr>start = Some ''trigger'', includes' = [], label = Some ''death''\<rparr> = Some ''death''"
    by simp
  from label_is_summary_field [OF example_query a b c d e] example_query
  show ?thesis by simp
qed

text \<open>
  Claim C7, as the code has it. When several windows carry a label, no error is raised
  for it: the loop of lines 150 to 154 stops at the first flagged window, which becomes
  the label source, and what the later windows say has no effect on the label.
\<close>

theorem first_label_wins:
  assumes "windows cfg = before @ (W, c) # after"
    and "\<forall>x\<in>set before. \<not> has_label (snd x)" and "has_label c"
  shows "label_window (windows cfg) = Some (W, c) \<and>
         add_label cfg result = add_label (cfg\<lparr>windows := before @ [(W, c)]\<rparr>) result"
proof -
  have 1: "label_window (windows cfg) = Some (W, c)"
    using assms by (rule label_window_first)
  have 2: "label_window (before @ [(W, c)]) = Some (W, c)"
    using assms(2,3) by (intro label_window_first [where after = "[]"]) auto
  from 1 2 show ?thesis by (simp add: add_label_def)
qed

theorem first_label_wins_witness:
  "has_label \<lparr>start = Some ''trigger'', includes' = [], label = Some ''death''\<rparr> \<and>
   label_window (windows two_label_cfg)
     = Some (''target'', \<lparr>start = Some ''trigger'', includes' = [], label = Some ''death''\<rparr>) \<and>
   add_label two_label_cfg example_result
     = add_label
         (two_label_cfg\<lparr>windows :=
            [(''trigger'', \<lparr>start = Some ''admission'', includes' = [], label = None\<rparr>)]
              @ [(''target'', \<lparr>start = Some ''trigger'', includes' = [], label = Some ''death''\<rparr>)]\<rparr>)
         example_result"
proof -
  have a: "windows two_label_cfg =
      [(''trigger'', \<lparr>start = Some ''admission'', includes' = [], label = None\<rparr>)]
        @ (''target'', \<lparr>start = Some ''trigger'', includes' = [], label = Some ''death''\<rparr>)
        # [(''followup'', \<lparr>start = Some ''target'', includes' = [], label = Some ''admission''\<rparr>)]"
    by (simp add: two_label_cfg_def)
  have b: "\<forall>x\<in>set [(''trigger'', \<lparr>start = Some ''admission'', includes' = [], label = None\<rparr>)].
      \<not> has_label (snd x)"
    by (simp add: has_label_def)
  have c: "has_label \<lparr>start = Some ''trigger'', includes' = [], label = Some ''death''\<rparr>"
    by (simp add: has_label_def)
  from first_label_wins [OF a b c, of example_result] c show ?thesis by simp
qed

text \<open>
  The claim as stated (more than one labelled window makes the query fail) fails: with
  two labelled windows \<^verbatim>\<open>query_task\<close> returns a table, labelled by the first.
\<close>

theorem two_labels_no_error:
  "map (\<lambda>(w, c). has_label c) (windows two_label_cfg) = [False, True, True] \<and>
   load_config two_label_collaborators ''cfg'' = Inr two_label_cfg \<and>
   query_task two_label_collaborators ''cfg'' (Frame example_events) True = Inr two_label_result"
  by (simp add: two_label_query)
    (simp add: two_label_cfg_def has_label_def two_label_collaborators_def)

section \<open>The trigger filter\<close>

lemma columns_filter_df: "filter_df df m = Inr r \<Longrightarrow> columns r = columns df"
  by (auto simp: filter_df_def columns_filter_rows split: if_splits)

lemma trigger_loop_columns:
  "trigger_loop v i cs a s out = Inr (r, out') \<Longrightarrow> columns r = columns a"
proof (induction v i cs a s out rule: trigger_loop.induct)
  case (1 verbose i anchor shape out)
  then show ?case by simp
next
  case (2 verbose i condition rest anchor shape out)
  from "2.prems" obtain dropped anchor' where
    d: "filter_df anchor (invert condition) = Inr dropped" and
    a: "filter_df anchor condition = Inr anchor'"
    by (auto split: sum.splits)
  have c: "columns anchor' = columns anchor" using a by (rule columns_filter_df)
  show ?case
  proof (cases "height anchor' < shape")
    case False
    with "2.prems" d a have "trigger_loop verbose (Suc i) rest anchor' shape out = Inr (r, out')"
      by simp
    with "2.IH"(3) [OF d a False] c show ?thesis by simp
  next
    case lt: True
    show ?thesis
    proof (cases verbose)
      case False
      with "2.prems" d a lt
      have "trigger_loop verbose (Suc i) rest anchor' (height anchor') out = Inr (r, out')"
        by simp
      with "2.IH"(2) [OF d a lt False] c show ?thesis by simp
    next
      case True
      with "2.prems" d a lt obtain subjects where
        s: "get_column dropped ''subject_id'' = Inr subjects" and
        t: "trigger_loop verbose (Suc i) rest anchor' (height anchor')
              (out @ [(n_unique subjects, height dropped, i)]) = Inr (r, out')"
        by (auto split: sum.splits)
      with "2.IH"(1) [OF d a lt True s] c show ?thesis by simp
    qed
  qed
qed

text \<open>A verbose run that succeeds leaves the same anchors as the quiet run.\<close>

lemma trigger_loop_quiet:
  "trigger_loop True i cs a s out = Inr (r, out') \<Longrightarrow>
   \<exists>out''. trigger_loop False i cs a s out0 = Inr (r, out'')"
proof (induction cs arbitrary: i a s out out0)
  case Nil
  then show ?case by simp
next
  case (Cons condition rest)
  from Cons.prems obtain dropped anchor' where
    d: "filter_df a (invert condition) = Inr dropped" and
    f: "filter_df a condition = Inr anchor'"
    by (auto split: sum.splits)
  show ?case
  proof (cases "height anchor' < s")
    case False
    with Cons.prems d f have "trigger_loop True (Suc i) rest anchor' s out = Inr (r, out')"
      by simp
    from Cons.IH [OF this, of out0] d f False show ?thesis by simp
  next
    case True
    with Cons.prems d f obtain subjects where
      "trigger_loop True (Suc i) rest anchor' (height anchor')
         (out @ [(n_unique subjects, height dropped, i)]) = Inr (r, out')"
      by (auto split: sum.splits)
    from Cons.IH [OF this, of out0] d f True show ?thesis by simp
  qed
qed

text \<open>A quiet run that succeeds where the verbose run fails has lost \<^verbatim>\<open>subject_id\<close>:
  the only extra failure of the verbose run is the lookup of that column in the
  dropped rows.\<close>

lemma trigger_loop_verbose:
  "trigger_loop False i cs a s out = Inr (r, out') \<Longrightarrow>
   (\<exists>out''. trigger_loop True i cs a s out0 = Inr (r, out'')) \<or>
   ''subject_id'' \<notin> set (columns r)"
proof (induction cs arbitrary: i a s out out0)
  case Nil
  then show ?case by simp
next
  case (Cons condition rest)
  from Cons.prems obtain dropped anchor' where
    d: "filter_df a (invert condition) = Inr dropped" and
    f: "filter_df a condition = Inr anchor'"
    by (auto split: sum.splits)
  show ?case
  proof (cases "height anchor' < s")
    case False
    with Cons.prems d f have "trigger_loop False (Suc i) rest anchor' s out = Inr (r, out')"
      by simp
    from Cons.IH [OF this, of out0] d f False show ?thesis by simp
  next
    case True
    with Cons.prems d f
    have t: "trigger_loop False (Suc i) rest anchor' (height anchor') out = Inr (r, out')"
      by simp
    show ?thesis
    proof (cases "get_column dropped ''subject_id''")
      case (Inr subjects)
      from Cons.IH [OF t, of "out0 @ [(n_unique subjects, height dropped, i)]"] d f True Inr
      show ?thesis by simp
    next
      case (Inl e)
      then have "''subject_id'' \<notin> set (columns dropped)"
        by (auto dest: get_column_present)
      moreover have "columns dropped = columns a" using d by (rule columns_filter_df)
      moreover have "columns anchor' = columns a" using f by (rule columns_filter_df)
      moreover have "columns r = columns anchor'" using t by (rule trigger_loop_columns)
      ultimately show ?thesis by simp
    qed
  qed
qed

lemma zero_accumulators_no_subject:
  "''subject_id'' \<notin> set (columns anchor) \<Longrightarrow> \<exists>e. zero_accumulators anchor pcols = Inl e"
  by (simp add: zero_accumulators_def select_def get_column_missing)

lemma initial_anchors_Inr:
  assumes "initial_anchors v cfg ESD = Inr (A, out)"
  shows "\<exists>trig exprs anchor. trigger cfg = Inr trig \<and> valid_trigger_exprs trig ESD = Inr exprs \<and>
           trigger_loop v 0 exprs ESD (height ESD) [] = Inr (anchor, out) \<and>
           zero_accumulators anchor (predicate_cols ESD) = Inr A"
proof (cases "trigger cfg")
  case (Inl e)
  with assms show ?thesis by (simp add: initial_anchors_def)
next
  case t: (Inr trig)
  show ?thesis
  proof (cases "valid_trigger_exprs trig ESD")
    case (Inl e)
    with assms t show ?thesis by (simp add: initial_anchors_def)
  next
    case e: (Inr exprs)
    show ?thesis
    proof (cases "trigger_loop v 0 exprs ESD (height ESD) []")
      case (Inl err)
      with assms t e show ?thesis by (simp add: initial_anchors_def)
    next
      case (Inr res)
      obtain anchor out' where res: "res = (anchor, out')" by (cases res)
      with assms t e Inr show ?thesis
        by (cases "zero_accumulators anchor (predicate_cols ESD)")
          (simp_all add: initial_anchors_def)
    qed
  qed
qed

lemma initial_anchors_verbose:
  "(\<exists>out. initial_anchors True cfg ESD = Inr (A, out)) \<longleftrightarrow>
   (\<exists>out. initial_anchors False cfg ESD = Inr (A, out))"
proof
  assume "\<exists>out. initial_anchors True cfg ESD = Inr (A, out)"
  then obtain out where "initial_anchors True cfg ESD = Inr (A, out)" ..
  from initial_anchors_Inr [OF this] obtain trig exprs anchor where
    t: "trigger cfg = Inr trig" and e: "valid_trigger_exprs trig ESD = Inr exprs" and
    l: "trigger_loop True 0 exprs ESD (height ESD) [] = Inr (anchor, out)" and
    z: "zero_accumulators anchor (predicate_cols ESD) = Inr A"
    by blast
  from trigger_loop_quiet [OF l, of "[]"] obtain out'
    where "trigger_loop False 0 exprs ESD (height ESD) [] = Inr (anchor, out')" ..
  with t e z show "\<exists>out. initial_anchors False cfg ESD = Inr (A, out)"
    by (simp add: initial_anchors_def)
next
  assume "\<exists>out. initial_anchors False cfg ESD = Inr (A, out)"
  then obtain out where "initial_anchors False cfg ESD = Inr (A, out)" ..
  from initial_anchors_Inr [OF this] obtain trig exprs anchor where
    t: "trigger cfg = Inr trig" and e: "valid_trigger_exprs trig ESD = Inr exprs" and
    l: "trigger_loop False 0 exprs ESD (height ESD) [] = Inr (anchor, out)" and
    z: "zero_accumulators anchor (predicate_cols ESD) = Inr A"
    by blast
  have "''subject_id'' \<in> set (columns anchor)"
    using z zero_accumulators_no_subject [of anchor "predicate_cols ESD"] by auto
  with trigger_loop_verbose [OF l, of "[]"] trigger_loop_columns [OF l]
  obtain out' where "trigger_loop True 0 exprs ESD (height ESD) [] = Inr (anchor, out')"
    by auto
  with t e z show "\<exists>out. initial_anchors True cfg ESD = Inr (A, out)"
    by (simp add: initial_anchors_def)
qed

lemma returned_None: "returned r = None \<longleftrightarrow> (\<exists>e. r = Inl e)"
  by (cases r) (simp_all add: returned_def)

lemma returned_Some: "returned r = Some x \<longleftrightarrow> r = Inr x"
  by (cases r) (simp_all add: returned_def)

lemma query_events_verbose:
  assumes g: "\<forall>cfg df. returned (generate_predicate_columns C cfg df True)
                       = returned (generate_predicate_columns C cfg df False)"
    and q: "\<forall>t a e off. returned (query_subtree C t a e off True)
                       = returned (query_subtree C t a e off False)"
  shows "returned (query_events C p parsed True) = returned (query_events C p parsed False)"
proof (cases "check_input parsed")
  case (Inl e)
  then show ?thesis by (simp add: query_events_def)
next
  case c: (Inr checked)
  show ?thesis
  proof (cases "load_config C p")
    case (Inl e)
    with c show ?thesis by (simp add: query_events_def)
  next
    case l: (Inr cfg)
    show ?thesis
    proof (cases "generate_predicate_columns C cfg checked True")
      case (Inl e)
      with g have "returned (generate_predicate_columns C cfg checked False) = None"
        by (metis returned_None)
      then obtain e' where "generate_predicate_columns C cfg checked False = Inl e'"
        by (auto simp: returned_None)
      with Inl c l show ?thesis by (simp add: query_events_def returned_def)
    next
      case gt: (Inr ESD)
      with g have "returned (generate_predicate_columns C cfg checked False) = Some ESD"
        by (metis returned_Some)
      then have gf: "generate_predicate_columns C cfg checked False = Inr ESD"
        by (simp add: returned_Some)
      show ?thesis
      proof (cases "build_tree_from_config C cfg")
        case (Inl e)
        with c l gt gf show ?thesis by (simp add: query_events_def)
      next
        case b: (Inr t)
        show ?thesis
        proof (cases "initial_anchors True cfg ESD")
          case it: (Inl e)
          have "\<exists>e'. initial_anchors False cfg ESD = Inl e'"
          proof (cases "initial_anchors False cfg ESD")
            case (Inr res)
            obtain A out where "res = (A, out)" by (cases res)
            with Inr initial_anchors_verbose [of cfg ESD A] it show ?thesis by auto
          qed simp
          then obtain e' where "initial_anchors False cfg ESD = Inl e'" ..
          with it c l gt gf b show ?thesis by (simp add: query_events_def returned_def)
        next
          case (Inr res)
          obtain A out where res: "res = (A, out)" by (cases res)
          with Inr have it: "initial_anchors True cfg ESD = Inr (A, out)" by simp
          with initial_anchors_verbose [of cfg ESD A]
          obtain out' where "initial_anchors False cfg ESD = Inr (A, out')" by auto
          note if' = this
          show ?thesis
          proof (cases "query_subtree C t A ESD 0 True")
            case (Inl e)
            with q have "returned (query_subtree C t A ESD 0 False) = None"
              by (metis returned_None)
            then obtain e' where "query_subtree C t A ESD 0 False = Inl e'"
              by (auto simp: returned_None)
            with Inl it if' c l gt gf b show ?thesis
              by (simp add: query_events_def returned_def)
          next
            case qt: (Inr result)
            with q have "returned (query_subtree C t A ESD 0 False) = Some result"
              by (metis returned_Some)
            then have "query_subtree C t A ESD 0 False = Inr result"
              by (simp add: returned_Some)
            with qt it if' c l gt gf b show ?thesis
              by (simp add: query_events_def)
          qed
        qed
      qed
    qed
  qed
qed

section \<open>The verbose flag\<close>

text \<open>
  Claim C9. The table returned by \<^verbatim>\<open>query_task\<close> is the same with \<^verbatim>\<open>verbose\<close> true and
  false: either both runs raise, or both return the same table. The flag is handed on
  to \<^verbatim>\<open>generate_predicate_columns\<close> and \<^verbatim>\<open>query_subtree\<close>, so the same is assumed of
  them. Inside \<^verbatim>\<open>query_task\<close> the flag only guards printing; a verbose run evaluates
  \<^verbatim>\<open>dropped['subject_id']\<close> for its report, which can fail only when the later
  selection of \<^verbatim>\<open>subject_id\<close> fails as well.
\<close>

theorem verbose_does_not_change_result:
  assumes "\<forall>cfg df. returned (generate_predicate_columns C cfg df True)
                     = returned (generate_predicate_columns C cfg df False)"
    and "\<forall>t a e off. returned (query_subtree C t a e off True)
                     = returned (query_subtree C t a e off False)"
  shows "returned (query_task C p src True) = returned (query_task C p src False)"
proof (cases "load_data C src")
  case (Inl e)
  then show ?thesis by (simp add: query_task_def)
next
  case l: (Inr loaded)
  show ?thesis
  proof (cases "parse_timestamp C loaded")
    case (Inl e)
    with l show ?thesis by (simp add: query_task_def)
  next
    case (Inr parsed)
    with l query_events_verbose [OF assms, of p parsed] show ?thesis
      by (simp add: query_task_def)
  qed
qed

theorem verbose_does_not_change_result_witness:
  "(\<forall>cfg df. returned (generate_predicate_columns example_collaborators cfg df True)
              = returned (generate_predicate_columns example_collaborators cfg df False)) \<and>
   (\<forall>t a e off. returned (query_subtree example_collaborators t a e off True)
              = returned (query_subtree example_collaborators t a e off False)) \<and>
   returned (query_task example_collaborators ''cfg'' (Frame example_events) True)
     = Some example_result \<and>
   returned (query_task example_collaborators ''cfg'' (Frame example_events) False)
     = Some example_result"
proof -
  have a: "\<forall>cfg df. returned (generate_predicate_columns example_collaborators cfg df True)
              = returned (generate_predicate_columns example_collaborators cfg df False)"
    by (simp add: example_collaborators_def)
  have b: "\<forall>t a e off. returned (query_subtree example_collaborators t a e off True)
              = returned (query_subtree example_collaborators t a e off False)"
    by (simp add: example_collaborators_def example_query_subtree_def)
  have c: "returned (query_task example_collaborators ''cfg'' (Frame example_events) True)
             = Some example_result"
    by (simp add: example_query returned_def)
  from verbose_does_not_change_result [OF a b, of "''cfg''" "Frame example_events"] a b c
  show ?thesis by simp
qed

section \<open>The anchors of a trigger with one condition\<close>

lemma length_invert: "length (invert m) = length m"
  by (simp add: invert_def)

lemma height_filter_rows:
  assumes "frame_ok df" "length m = height df" "df \<noteq> []"
  shows "height (filter_rows df m) = count_true m"
proof -
  obtain n d rest where df: "df = (n, d) # rest" using assms(3) by (cases df) auto
  with assms(1) have "wf_data (height df) d" by (simp add: frame_ok_def)
  with assms(2) have "wf_data (count_true m) (filter_data m d)"
    by (simp add: wf_filter_data)
  with df show ?thesis by (simp add: height_def filter_rows_def dlen_wf)
qed

lemma trigger_loop_single:
  assumes "frame_ok ESD" and "length m = height ESD" and "''subject_id'' \<in> set (columns ESD)"
  shows "\<exists>out. trigger_loop v 0 [m] ESD (height ESD) [] = Inr (filter_rows ESD m, out)"
proof -
  have d: "filter_df ESD (invert m) = Inr (filter_rows ESD (invert m))"
    using assms(1,2) by (intro filter_df_ok) (simp_all add: length_invert)
  have f: "filter_df ESD m = Inr (filter_rows ESD m)"
    using assms(1,2) by (rule filter_df_ok)
  obtain subjects where s: "get_column (filter_rows ESD (invert m)) ''subject_id'' = Inr subjects"
    using assms(3) get_column_present [of "''subject_id''" "filter_rows ESD (invert m)"]
    by (auto simp: columns_filter_rows)
  show ?thesis by (cases v) (simp_all add: d f s)
qed

lemma predicate_col_prefix: "c \<in> set (predicate_cols df) \<Longrightarrow> take 3 c = ''is_'' \<and> c \<in> set (columns df)"
  by (simp add: predicate_cols_def)

lemma zero_accumulators_ok:
  assumes "frame_ok ESD" and "length m = height ESD"
    and sid: "get_column ESD ''subject_id'' = Inr sid"
    and ts: "get_column ESD ''timestamp'' = Inr ts"
  shows "zero_accumulators (filter_rows ESD m) (predicate_cols ESD) =
           Inr ((''subject_id'', filter_data m sid) # (''timestamp'', filter_data m ts)
                # map (\<lambda>c. (c, lit0 (count_true m))) (predicate_cols ESD))"
proof -
  let ?A = "filter_rows ESD m"
  let ?P = "predicate_cols ESD"
  let ?f = "\<lambda>c. projr (get_column ?A c)"
  have names: "\<forall>n\<in>set (''subject_id'' # ''timestamp'' # ?P). \<exists>d. get_column ?A n = Inr d"
    using sid ts
    by (auto simp: get_column_filter_rows columns_filter_rows
        dest!: predicate_col_prefix intro!: get_column_present)
  have dist: "distinct (''subject_id'' # ''timestamp'' # ?P)"
    using assms(1) by (auto simp: frame_ok_def predicate_cols_def)
  have sel: "select ?A (''subject_id'' # ''timestamp'' # ?P) =
      Inr ([(''subject_id'', filter_data m sid), (''timestamp'', filter_data m ts)]
           @ map (\<lambda>c. (c, ?f c)) ?P)"
    using select_columns_all [OF names] dist sid ts
    by (simp add: select_def first_duplicate_None [THEN iffD2] get_column_filter_rows
        del: select_columns.simps)
  have "wf_data (height ESD) sid" using assms(1) sid by (rule frame_ok_column)
  then have h: "dlen (filter_data m sid) = count_true m"
    using assms(2) by (simp add: wf_filter_data dlen_wf)
  have disj: "set ?P \<inter> fst ` set [(''subject_id'', filter_data m sid), (''timestamp'', filter_data m ts)] = {}"
    by (auto simp: predicate_cols_def)
  have "distinct ?P" using dist by simp
  from with_columns_overwrite [OF this disj, of ?f "\<lambda>c. lit0 (count_true m)"] sel h
  show ?thesis by (simp add: zero_accumulators_def height_def)
qed

lemma collect_Inr: "collect f xs = Inr ys \<Longrightarrow> y \<in> set ys \<Longrightarrow> \<exists>x\<in>set xs. f x = Inr y"
  by (induction xs arbitrary: ys) (auto split: sum.splits)

lemma column_is_one_length:
  assumes "frame_ok df" and "column_is_one df n = Inr m"
  shows "length m = height df"
proof -
  from assms(2) obtain d where d: "get_column df n = Inr d" and e: "eq_one d = Inr m"
    by (auto simp: column_is_one_def split: sum.splits)
  from e obtain xs where "d = IntCol xs" "m = map (map_option (\<lambda>v. v = 1)) xs"
    by (cases d) auto
  with frame_ok_column [OF assms(1) d] show ?thesis by simp
qed

lemma valid_trigger_exprs_length:
  assumes "frame_ok ESD" and "valid_trigger_exprs trig ESD = Inr ms" and "m \<in> set ms"
  shows "length m = height ESD"
proof -
  have "\<exists>n. column_is_one ESD n = Inr m"
  proof (cases "includes' trig = []")
    case True
    with assms(2) have "collect (column_is_one ESD) [''is_'' @ format_opt (start trig)] = Inr ms"
      by (simp add: valid_trigger_exprs_def)
    from collect_Inr [OF this assms(3)] show ?thesis by blast
  next
    case False
    with assms(2)
    have "collect (\<lambda>x. column_is_one ESD (''is_'' @ predicate x)) (includes' trig) = Inr ms"
      by (simp add: valid_trigger_exprs_def)
    from collect_Inr [OF this assms(3)] show ?thesis by blast
  qed
  then obtain n where "column_is_one ESD n = Inr m" ..
  with assms(1) show ?thesis by (rule column_is_one_length)
qed

text \<open>
  The anchors of a trigger with one condition (a \<^verbatim>\<open>start\<close> predicate, or an
  \<^verbatim>\<open>includes\<close> list of length one): one row per row of the table on which the condition
  holds, in the order of the table, with that row's \<^verbatim>\<open>subject_id\<close> and \<^verbatim>\<open>timestamp\<close>, and
  every predicate column set to 0.
\<close>

lemma initial_anchors_single:
  assumes "frame_ok ESD" and "trigger cfg = Inr trig"
    and "valid_trigger_exprs trig ESD = Inr [m]"
    and sid: "get_column ESD ''subject_id'' = Inr sid"
    and ts: "get_column ESD ''timestamp'' = Inr ts"
  shows "\<exists>out. initial_anchors v cfg ESD =
           Inr ((''subject_id'', filter_data m sid) # (''timestamp'', filter_data m ts)
                # map (\<lambda>c. (c, lit0 (count_true m))) (predicate_cols ESD), out)"
proof -
  have len: "length m = height ESD"
    using assms(1,3) by (rule valid_trigger_exprs_length) simp
  have "''subject_id'' \<in> set (columns ESD)" using sid by (rule get_column_mem)
  from trigger_loop_single [OF assms(1) len this, of v] obtain out where
    "trigger_loop v 0 [m] ESD (height ESD) [] = Inr (filter_rows ESD m, out)" ..
  with assms(2,3) zero_accumulators_ok [OF assms(1) len sid ts] show ?thesis
    by (simp add: initial_anchors_def)
qed

text \<open>
  With two or more conditions, the second filter fails as soon as the first condition
  drops a row of a table of at least two rows: the second mask still has one entry per
  row of the whole table.
\<close>

lemma trigger_loop_shape_error:
  assumes "frame_ok ESD" and "2 \<le> height ESD"
    and "length m1 = height ESD" and "length m2 = height ESD"
    and "count_true m1 < height ESD" and "''subject_id'' \<in> set (columns ESD)"
  shows "trigger_loop v 0 (m1 # m2 # rest) ESD (height ESD) [] = Inl ShapeError"
proof -
  have ne: "ESD \<noteq> []" using assms(2) by (auto simp: height_def)
  have d: "filter_df ESD (invert m1) = Inr (filter_rows ESD (invert m1))"
    using assms(1,3) by (intro filter_df_ok) (simp_all add: length_invert)
  have f: "filter_df ESD m1 = Inr (filter_rows ESD m1)"
    using assms(1,3) by (rule filter_df_ok)
  have h: "height (filter_rows ESD m1) = count_true m1"
    using assms(1,3) ne by (rule height_filter_rows)
  obtain subjects where s: "get_column (filter_rows ESD (invert m1)) ''subject_id'' = Inr subjects"
    using assms(6) get_column_present [of "''subject_id''" "filter_rows ESD (invert m1)"]
    by (auto simp: columns_filter_rows)
  have "filter_rows ESD m1 \<noteq> []" using ne by (simp add: filter_rows_def)
  then have e: "filter_df (filter_rows ESD m1) (invert m2) = Inl ShapeError"
    using assms(2,4,5) h by (simp add: filter_df_def length_invert)
  show ?thesis using assms(5) by (cases v) (simp_all add: d f h s e)
qed

section \<open>An empty set of anchors\<close>

text \<open>
  Claim C2, as the code has it. When the trigger has one condition and it holds on no
  row of the predicate-annotated table, the anchors have no rows and \<^verbatim>\<open>query_task\<close>
  raises nothing for it: the empty anchors are handed to \<^verbatim>\<open>query_subtree\<close> and the
  outcome of \<^verbatim>\<open>query_task\<close> is the assembly of whatever \<^verbatim>\<open>query_subtree\<close> returns.
\<close>

theorem empty_anchors_reach_query_subtree:
  assumes "load_data C src = Inr loaded" and "parse_timestamp C loaded = Inr parsed"
    and "check_input parsed = Inr checked" and "load_config C p = Inr cfg"
    and "generate_predicate_columns C cfg checked v = Inr ESD"
    and "build_tree_from_config C cfg = Inr t"
    and "frame_ok ESD" and "trigger cfg = Inr trig"
    and "valid_trigger_exprs trig ESD = Inr [m]" and "Some True \<notin> set m"
    and "get_column ESD ''subject_id'' = Inr sid" and "get_column ESD ''timestamp'' = Inr ts"
  shows "\<exists>A out. initial_anchors v cfg ESD = Inr (A, out) \<and> height A = 0 \<and>
           query_task C p src v =
             (case query_subtree C t A ESD 0 v of
                Inl e \<Rightarrow> Inl e
              | Inr result \<Rightarrow>
                  (case assemble t result of
                     Inl e \<Rightarrow> Inl e
                   | Inr assembled \<Rightarrow> add_label cfg assembled))"
proof -
  let ?A = "(''subject_id'', filter_data m sid) # (''timestamp'', filter_data m ts)
              # map (\<lambda>c. (c, lit0 (count_true m))) (predicate_cols ESD)"
  from initial_anchors_single [OF assms(7,8,9,11,12), of v]
  obtain out where a: "initial_anchors v cfg ESD = Inr (?A, out)" ..
  have len: "length m = height ESD"
    using assms(7,9) by (rule valid_trigger_exprs_length) simp
  have "count_true m = 0" using assms(10) by (auto simp: count_true_def filter_empty_conv)
  moreover have "wf_data (height ESD) sid" using assms(7,11) by (rule frame_ok_column)
  ultimately have "height ?A = 0"
    using len wf_filter_data [of m sid] by (simp add: height_def dlen_wf)
  with a assms(1-6) show ?thesis
    by (simp add: query_task_def query_events_def)
qed


theorem empty_anchors_reach_query_subtree_witness:
  "frame_ok example_no_trigger \<and>
   valid_trigger_exprs \<lparr>start = Some ''admission'', includes' = [], label = None\<rparr>
     example_no_trigger = Inr [[Some False, Some False]] \<and>
   (\<exists>A out. initial_anchors True example_cfg example_no_trigger = Inr (A, out) \<and> height A = 0 \<and>
      query_task example_collaborators ''cfg'' (Frame example_no_trigger) True =
        (case query_subtree example_collaborators example_tree A example_no_trigger 0 True of
           Inl e \<Rightarrow> Inl e
         | Inr result \<Rightarrow>
             (case assemble example_tree result of
                Inl e \<Rightarrow> Inl e
              | Inr assembled \<Rightarrow> add_label example_cfg assembled)))"
proof -
  have h1: "load_data example_collaborators (Frame example_no_trigger) = Inr example_no_trigger"
    by simp
  have h2: "parse_timestamp example_collaborators example_no_trigger = Inr example_no_trigger"
    by (simp add: parse_timestamp_def example_no_trigger_def get_column_def is_datetime_def)
  have h3: "check_input example_no_trigger = Inr example_no_trigger"
    by (simp add: check_input_def example_no_trigger_def height_def columns_def)
  have h4: "load_config example_collaborators ''cfg'' = Inr example_cfg"
    by (simp add: example_collaborators_def)
  have h5: "generate_predicate_columns example_collaborators example_cfg example_no_trigger True
              = Inr example_no_trigger"
    by (simp add: example_collaborators_def)
  have h6: "build_tree_from_config example_collaborators example_cfg = Inr example_tree"
    by (simp add: example_collaborators_def)
  have h7: "frame_ok example_no_trigger"
    by (simp add: frame_ok_def example_no_trigger_def columns_def height_def)
  have h8: "trigger example_cfg = Inr \<lparr>start = Some ''admission'', includes' = [], label = None\<rparr>"
    by (simp add: trigger_def example_cfg_def)
  have h9: "valid_trigger_exprs \<lparr>start = Some ''admission'', includes' = [], label = None\<rparr>
              example_no_trigger = Inr [[Some False, Some False]]"
    by (simp add: valid_trigger_exprs_def column_is_one_def get_column_def example_no_trigger_def)
  have h10: "Some True \<notin> set [Some False, Some False]" by simp
  have h11: "get_column example_no_trigger ''subject_id'' = Inr (IntCol [Some 1, Some 2])"
    by (simp add: get_column_def example_no_trigger_def)
  have h12: "get_column example_no_trigger ''timestamp'' = Inr (DatetimeCol [Some 0, Some 0])"
    by (simp add: get_column_def example_no_trigger_def)
  from empty_anchors_reach_query_subtree [OF h1 h2 h3 h4 h5 h6 h7 h8 h9 h10 h11 h12] h7 h9
  show ?thesis by simp
qed

text \<open>
  The claim as stated (an empty set of anchors makes the query fail) fails: no row of
  this table is an admission, the anchors have no rows, and \<^verbatim>\<open>query_task\<close> returns the
  empty result table.
\<close>

theorem empty_anchors_no_error:
  "initial_anchors True example_cfg example_no_trigger = Inr (empty_anchors, [(2, 2, 0)]) \<and>
   height empty_anchors = 0 \<and>
   query_task example_collaborators ''cfg'' (Frame example_no_trigger) True = Inr empty_result"
  by (simp add: query_defs table_defs example_defs example_no_trigger_def empty_anchors_def
      empty_result_def upt_rec)

section \<open>The anchors of the claim\<close>


lemma keep_strict: "keep (map (\<lambda>b. Some (b = Some True)) m) xs = keep m xs"
proof (induction m arbitrary: xs)
  case Nil
  then show ?case by (simp add: keep_def)
next
  case (Cons b m)
  then show ?case by (cases xs) (auto simp: keep_def)
qed

lemma filter_data_strict: "filter_data (map (\<lambda>b. Some (b = Some True)) m) d = filter_data m d"
proof (induction m d rule: filter_data.induct)
  case (4 m fs)
  then show ?case by auto
qed (simp_all add: keep_strict)

lemma count_true_strict: "count_true (map (\<lambda>b. Some (b = Some True)) m) = count_true m"
  by (induction m) (auto simp: count_true_def)

lemma collect_length: "collect f xs = Inr ys \<Longrightarrow> length ys = length xs"
  by (induction xs arbitrary: ys) (auto split: sum.splits)

lemma single_condition:
  assumes "valid_trigger_exprs trig ESD = Inr [m]"
  shows "\<exists>p. trigger_predicates trig = [p] \<and> column_is_one ESD (''is_'' @ p) = Inr m"
proof (cases "includes' trig = []")
  case True
  with assms show ?thesis
    by (auto simp: valid_trigger_exprs_def trigger_predicates_def split: sum.splits)
next
  case False
  with assms
  have c: "collect (\<lambda>x. column_is_one ESD (''is_'' @ predicate x)) (includes' trig) = Inr [m]"
    by (simp add: valid_trigger_exprs_def)
  from collect_length [OF c] obtain x where x: "includes' trig = [x]"
    by (cases "includes' trig") auto
  with c False show ?thesis
    by (auto simp: trigger_predicates_def split: sum.splits)
qed

lemma claimed_mask:
  assumes "frame_ok ESD" and "valid_trigger_exprs trig ESD = Inr [m]"
  shows "map (\<lambda>i. Some (qualifies trig ESD i)) [0..<height ESD]
           = map (\<lambda>b. Some (b = Some True)) m"
proof -
  from single_condition [OF assms(2)] obtain p where
    p: "trigger_predicates trig = [p]" and c: "column_is_one ESD (''is_'' @ p) = Inr m" by blast
  from c obtain d where d: "get_column ESD (''is_'' @ p) = Inr d" and e: "eq_one d = Inr m"
    by (auto simp: column_is_one_def split: sum.splits)
  from e obtain xs where xs: "d = IntCol xs" "m = map (map_option (\<lambda>v. v = 1)) xs"
    by (cases d) auto
  from frame_ok_column [OF assms(1) d] xs have len: "length xs = height ESD" by simp
  have "map (\<lambda>i. Some (qualifies trig ESD i)) [0..<length xs]
          = map (\<lambda>i. Some (xs ! i = Some 1)) [0..<length xs]"
    using d xs p
    by (intro map_cong)
      (auto simp: qualifies_def cell_of_def get_column_def split: option.splits)
  also have "\<dots> = map (\<lambda>x. Some (x = Some 1)) (map (\<lambda>i. xs ! i) [0..<length xs])"
    by (simp add: o_def)
  also have "\<dots> = map (\<lambda>x. Some (x = Some 1)) xs"
    by (simp only: map_nth)
  also have "\<dots> = map (\<lambda>b. Some (b = Some True)) m"
    using xs by (auto simp: o_def)
  finally show ?thesis using len by simp
qed

text \<open>
  For a trigger with one condition the anchors built by lines 82 to 124 are the anchors
  of the claim.
\<close>

lemma initial_anchors_as_claimed:
  assumes "frame_ok ESD" and "trigger cfg = Inr trig"
    and "valid_trigger_exprs trig ESD = Inr [m]"
    and "get_column ESD ''subject_id'' = Inr sid"
    and "get_column ESD ''timestamp'' = Inr ts"
  shows "\<exists>A out. initial_anchors v cfg ESD = Inr (A, out) \<and> claimed_anchors trig ESD = Some A"
proof -
  from initial_anchors_single [OF assms, of v] obtain out where
    "initial_anchors v cfg ESD =
       Inr ((''subject_id'', filter_data m sid) # (''timestamp'', filter_data m ts)
            # map (\<lambda>c. (c, lit0 (count_true m))) (predicate_cols ESD), out)" ..
  moreover have "claimed_anchors trig ESD =
       Some ((''subject_id'', filter_data m sid) # (''timestamp'', filter_data m ts)
            # map (\<lambda>c. (c, lit0 (count_true m))) (predicate_cols ESD))"
    using assms(4,5)
    by (simp add: claimed_anchors_def claimed_mask [OF assms(1,3)] filter_data_strict
        count_true_strict)
  ultimately show ?thesis by blast
qed

section \<open>A trigger with several include conditions\<close>

text \<open>
  Claim C1 at a trigger with two include conditions. In this table only the first row
  is both an admission and an emergency, so the claim asks for one anchor (subject 1 at
  time 0, every predicate column 0). The conditions are Boolean columns computed from
  the whole table (three entries); after the first condition has dropped the second
  row, the second condition no longer fits the two rows left, and instead of the
  anchors the filter raises the library's shape error. (For a trigger with one
  condition the anchors are those of the claim: \<open>initial_anchors_as_claimed\<close>.)
\<close>

theorem includes_trigger_shape_error:
  "trigger includes_cfg = Inr includes_trigger \<and>
   claimed_anchors includes_trigger includes_events
     = Some [(''subject_id'', IntCol [Some 1]), (''timestamp'', DatetimeCol [Some 0]),
         (''is_admission'', IntCol [Some 0]), (''is_emergency'', IntCol [Some 0]),
         (''is_death'', IntCol [Some 0])] \<and>
   valid_trigger_exprs includes_trigger includes_events
     = Inr [[Some True, Some False, Some True], [Some True, Some False, Some False]] \<and>
   initial_anchors False includes_cfg includes_events = Inl ShapeError \<and>
   query_task includes_collaborators ''cfg'' (Frame includes_events) False = Inl ShapeError"
proof -
  have "claimed_anchors includes_trigger includes_events
     = Some [(''subject_id'', IntCol [Some 1]), (''timestamp'', DatetimeCol [Some 0]),
         (''is_admission'', IntCol [Some 0]), (''is_emergency'', IntCol [Some 0]),
         (''is_death'', IntCol [Some 0])]"
    by (simp add: claimed_anchors_def qualifies_def trigger_predicates_def cell_of_def
        includes_trigger_def includes_events_def table_defs predicate_cols_def count_true_def
        upt_rec)
  moreover have "trigger includes_cfg = Inr includes_trigger \<and>
   valid_trigger_exprs includes_trigger includes_events
     = Inr [[Some True, Some False, Some True], [Some True, Some False, Some False]] \<and>
   initial_anchors False includes_cfg includes_events = Inl ShapeError \<and>
   query_task includes_collaborators ''cfg'' (Frame includes_events) False = Inl ShapeError"
    by (simp add: query_defs table_defs example_defs includes_collaborators_def includes_cfg_def
        includes_trigger_def includes_events_def upt_rec)
  ultimately show ?thesis by simp
qed

end
